theory Spec2Isabelle
  imports Main "HOL-Library.AList"
begin

section \<open>Deletion capture engine of the WhatsApp agent\<close>

text \<open>
  A shallow embedding of the retention and deletion-capture logic of the agent
  (the variant with local authentication and pairing code): the message cache, the
  media tracker, the revoke guard, the startup grace check and the three event
  handlers \<open>message\<close>, \<open>message_create\<close> and \<open>message_revoke_everyone\<close>.

  Conventions of the embedding.
  \<^item> Wall-clock time is an \<open>int\<close> of milliseconds since the epoch; every event carries
    the value \<open>Date.now()\<close> returns while its handler runs.
  \<^item> A JavaScript \<open>Map\<close> is an association list in insertion order with distinct keys:
    \<open>Map.get\<close> is \<open>map_of\<close>, \<open>Map.set\<close> is \<open>AList.update\<close> (a present key keeps its
    position and gets the new value, an absent key is appended), \<open>Map.delete\<close> is
    \<open>AList.delete\<close>, \<open>Map.size\<close> is \<open>length\<close>, and \<open>keys().next().value\<close> is
    the key of the first entry.
  \<^item> The file system is the set of paths that exist. File contents are not modelled.
  \<^item> Pending \<open>setTimeout\<close> callbacks are a list of timers in state; \<open>advance\<close>
    runs the callbacks that are due before a handler runs.
  \<^item> The \<open>message\<close>, \<open>message_create\<close> and \<open>message_revoke_everyone\<close> handlers run
    to completion: their awaits are not interleaved with other handlers. The \<open>ready\<close>
    handler is split at its await, because the assignment that follows the await is
    what the startup grace check reads: other handlers may run in between.
  \<^item> Calls that may throw take their outcome from the environment record of the event;
    every \<open>try/catch\<close> of the source is a branch of the model.
  \<^item> A JavaScript string is held as its UTF-8 bytes; the emoji of the source are spelled
    as UTF-8 bytes. Where the source counts UTF-16 code units (\<open>length\<close>,
    \<open>substring\<close>, a regular expression without the \<open>u\<close> flag), the model counts
    them from the first byte of each character.
\<close>

subsection \<open>Constants\<close>

definition TEMP_MEDIA_DIR :: string where
  "TEMP_MEDIA_DIR = ''media/temp''"

definition SAVED_MEDIA_DIR :: string where
  "SAVED_MEDIA_DIR = ''media/saved''"

definition DELETE_WINDOW_MS :: int where
  "DELETE_WINDOW_MS = 68 * 60 * 60 * 1000"

definition MAX_CACHE_SIZE :: nat where
  "MAX_CACHE_SIZE = 500"

definition MESSAGE_CACHE_TTL_MS :: int where
  "MESSAGE_CACHE_TTL_MS = DELETE_WINDOW_MS"

definition STARTUP_GRACE_MS :: int where
  "STARTUP_GRACE_MS = 30 * 1000"

definition REVOKE_DEDUP_TTL_MS :: int where
  "REVOKE_DEDUP_TTL_MS = 60 * 1000"

definition MAX_MEDIA_SIZE_MB :: nat where
  "MAX_MEDIA_SIZE_MB = 10"

subsection \<open>Strings and paths\<close>

definition nl :: string where
  "nl = [CHR 0x0A]"

text \<open>The emoji that open the notification titles, as UTF-8.\<close>

definition wastebasket :: string where
  "wastebasket = [CHR 0xF0, CHR 0x9F, CHR 0x97, CHR 0x91, CHR 0xEF, CHR 0xB8, CHR 0x8F]"

definition eye :: string where
  "eye = [CHR 0xF0, CHR 0x9F, CHR 0x91, CHR 0x81, CHR 0xEF, CHR 0xB8, CHR 0x8F]"

definition paperclip :: string where
  "paperclip = [CHR 0xF0, CHR 0x9F, CHR 0x93, CHR 0x8E]"

function decimal_nat :: "nat \<Rightarrow> string" where
  "decimal_nat n =
     (if n < 10 then [''0123456789'' ! n]
      else decimal_nat (n div 10) @ [''0123456789'' ! (n mod 10)])"
  by pat_completeness auto
termination
  by (relation "measure id") auto

text \<open>The template literal \<open>${n}\<close> of an integer.\<close>

definition decimal :: "int \<Rightarrow> string" where
  "decimal i = (if i < 0 then ''-'' @ decimal_nat (nat (- i)) else decimal_nat (nat i))"

text \<open>\<open>path.join(dir, name)\<close> for a name without separators or dots to normalise.\<close>

definition path_join :: "string \<Rightarrow> string \<Rightarrow> string" where
  "path_join dir name = dir @ ''/'' @ name"

definition basename :: "string \<Rightarrow> string" where
  "basename p = rev (takeWhile (\<lambda>c. c \<noteq> CHR ''/'') (rev p))"

definition alnum :: "char \<Rightarrow> bool" where
  "alnum c =
     (let n = (of_char c :: nat)
      in (97 \<le> n \<and> n \<le> 122) \<or> (65 \<le> n \<and> n \<le> 90) \<or> (48 \<le> n \<and> n \<le> 57))"

text \<open>
  The UTF-16 code units of the character that a byte of the UTF-8 encoding starts: one
  for a character of up to three bytes, two (a surrogate pair) for a character of four
  bytes, none for a continuation byte.
\<close>

definition codeUnits :: "char \<Rightarrow> nat" where
  "codeUnits c =
     (let n = (of_char c :: nat)
      in if 128 \<le> n \<and> n < 192 then 0 else if 240 \<le> n then 2 else 1)"

text \<open>\<open>str.length\<close>\<close>

definition jsLength :: "string \<Rightarrow> nat" where
  "jsLength str = sum_list (map codeUnits str)"

text \<open>
  \<open>name.replace(/[^a-zA-Z0-9]/g, "_").substring(0, 20)\<close>: every code unit that is not
  an ASCII letter or digit becomes one underscore, so the result is ASCII and its first
  twenty code units are its first twenty bytes.
\<close>

definition safeName :: "string \<Rightarrow> string" where
  "safeName name =
     take 20 (concat (map (\<lambda>c. if alnum c then [c] else replicate (codeUnits c) CHR ''_'') name))"

text \<open>
  \<open>getExtension\<close>: the table of known MIME types, then the MIME subtype, then \<open>bin\<close>
  for an empty type. A type without \<open>/\<close> gives the text of \<open>undefined\<close>, as the
  concatenation in the source does. The table of the source is a plain object, so the
  lookup \<open>map[mimetype]\<close> also answers the property names it inherits from
  \<open>Object.prototype\<close>, with a function or an object; the only use of the result is the
  template literal of the file name, so the model gives the text that value has there.
\<close>

definition extension_table :: "(string \<times> string) list" where
  "extension_table =
    [(''image/jpeg'', ''.jpg''), (''image/png'', ''.png''), (''image/webp'', ''.webp''),
     (''image/gif'', ''.gif''), (''image/bmp'', ''.bmp''), (''image/tiff'', ''.tiff''),
     (''image/heic'', ''.heic''), (''image/heif'', ''.heif''), (''image/svg+xml'', ''.svg''),
     (''video/mp4'', ''.mp4''), (''video/3gpp'', ''.3gp''), (''video/quicktime'', ''.mov''),
     (''video/x-msvideo'', ''.avi''), (''video/webm'', ''.webm''),
     (''video/x-matroska'', ''.mkv''), (''audio/ogg; codecs=opus'', ''.ogg''),
     (''audio/ogg'', ''.ogg''), (''audio/mpeg'', ''.mp3''), (''audio/mp4'', ''.m4a''),
     (''audio/wav'', ''.wav''), (''audio/aac'', ''.aac''), (''audio/flac'', ''.flac''),
     (''audio/amr'', ''.amr''), (''application/pdf'', ''.pdf''),
     (''application/vnd.openxmlformats-officedocument.wordprocessingml.document'', ''.docx''),
     (''application/msword'', ''.doc''),
     (''application/vnd.openxmlformats-officedocument.spreadsheetml.sheet'', ''.xlsx''),
     (''application/vnd.ms-excel'', ''.xls''),
     (''application/vnd.openxmlformats-officedocument.presentationml.presentation'', ''.pptx''),
     (''application/vnd.ms-powerpoint'', ''.ppt''), (''text/plain'', ''.txt''),
     (''text/csv'', ''.csv''), (''application/zip'', ''.zip''),
     (''application/x-rar-compressed'', ''.rar''), (''application/x-7z-compressed'', ''.7z''),
     (''application/gzip'', ''.gz''), (''application/json'', ''.json''),
     (''application/octet-stream'', ''.bin''),
     (''application/vnd.android.package-archive'', ''.apk'')]"

definition inherited_table :: "(string \<times> string) list" where
  "inherited_table =
    [(''constructor'', ''function Object() { [native code] }''),
     (''__defineGetter__'', ''function __defineGetter__() { [native code] }''),
     (''__defineSetter__'', ''function __defineSetter__() { [native code] }''),
     (''hasOwnProperty'', ''function hasOwnProperty() { [native code] }''),
     (''__lookupGetter__'', ''function __lookupGetter__() { [native code] }''),
     (''__lookupSetter__'', ''function __lookupSetter__() { [native code] }''),
     (''isPrototypeOf'', ''function isPrototypeOf() { [native code] }''),
     (''propertyIsEnumerable'', ''function propertyIsEnumerable() { [native code] }''),
     (''toString'', ''function toString() { [native code] }''),
     (''valueOf'', ''function valueOf() { [native code] }''),
     (''__proto__'', ''[object Object]''),
     (''toLocaleString'', ''function toLocaleString() { [native code] }'')]"

definition getExtension :: "string \<Rightarrow> string" where
  "getExtension mimetype =
     (case map_of extension_table mimetype of
        Some ext \<Rightarrow> ext
      | None \<Rightarrow>
          (case map_of inherited_table mimetype of
             Some inherited \<Rightarrow> inherited
           | None \<Rightarrow>
               if mimetype = [] then ''.bin''
               else
                 (let front = takeWhile (\<lambda>c. c \<noteq> CHR '';'') mimetype;
                      rest = dropWhile (\<lambda>c. c \<noteq> CHR ''/'') front
                  in if rest = [] then ''.undefined''
                     else ''.'' @ takeWhile (\<lambda>c. c \<noteq> CHR ''/'') (tl rest))))"

text \<open>
  \<open>Buffer.byteLength(data, "base64")\<close>, as Node computes it: the count starts at the
  length of the string, drops by one for a final \<open>=\<close> and, if more than one is left,
  by one more for an \<open>=\<close> before it; the result is three quarters of the count,
  rounded down. \<open>front\<close> is the string up to the count.
\<close>

definition base64ByteLength :: "string \<Rightarrow> nat" where
  "base64ByteLength d =
     (let (bytes1, front) =
            (if d \<noteq> [] \<and> last d = CHR ''='' then (jsLength d - 1, butlast d)
             else (jsLength d, d));
          bytes2 = (if bytes1 > 1 \<and> front \<noteq> [] \<and> last front = CHR ''='' then bytes1 - 1
                    else bytes1)
      in (bytes2 * 3) div 4)"

subsection \<open>Data of the protocol client\<close>

text \<open>
  What the handlers read of the objects the client library passes in. A rejected
  \<open>getChat()\<close> or \<open>getContact()\<close> is \<open>None\<close>. A contact's \<open>name\<close> and
  \<open>pushname\<close> may be undefined (\<open>None\<close>); its \<open>number\<close> is a string.
\<close>

record chat =
  isGroup :: bool
  chatName :: string

record contact =
  name :: "string option"
  pushname :: "string option"
  number :: string

record media =
  mediaData :: string
  mediaMimetype :: string

record msg =
  msgId :: string
  msgLocalId :: string
  msgBody :: string
  msgTimestamp :: int
  hasMedia :: bool
  isViewOnce :: bool
  fromMe :: bool
  msgChat :: "chat option"
  msgContact :: "contact option"
  downloadMedia :: "media option"

text \<open>
  \<open>msgId\<close> is \<open>msg.id._serialized\<close> and \<open>msgLocalId\<close> is \<open>msg.id.id\<close>;
  \<open>downloadMedia\<close> is \<open>None\<close> when the download rejects or resolves to nothing.
\<close>

record reference =
  refId :: string
  refBody :: string
  refTimestamp :: int
  refChat :: "chat option"
  refContact :: "contact option"

subsection \<open>State of the engine\<close>

record snapshot =
  body :: string
  senderName :: string
  senderNumber :: string
  chatLocation :: string
  timestamp :: int
  cachedMsgFilePath :: "string option"
  cachedAt :: int

record media_slot =
  filePath :: string
  filename :: string
  timeout :: nat
  mimetype :: string
  sentTimestamp :: int

record transcript_slot =
  msgFilePath :: string
  msgFilename :: string
  msgFileTimeout :: nat

text \<open>
  A tracker record is one object with two groups of fields, each written as a whole:
  the media fields by \<open>saveMediaToTemp\<close>, the message file fields by the \<open>message\<close>
  handler. A group that was never written is \<open>None\<close>, so the test
  \<open>tracked.filePath\<close> of the source is \<open>media_of t \<noteq> None\<close>.
\<close>

record tracked =
  media_of :: "media_slot option"
  transcript_of :: "transcript_slot option"

datatype action =
    CacheExpire string
  | MediaExpire string string
  | MsgFileExpire string
  | DedupExpire string

text \<open>
  A pending \<open>setTimeout\<close> callback. The handle is kept for the timers whose handle the
  source stores (\<open>timeout\<close>, \<open>msgFileTimeout\<close>); the source drops the handle of a
  cache or dedup timer, which therefore no \<open>clearTimeout\<close> can name.
\<close>

record timer =
  handle :: "nat option"
  due :: int
  action :: action

record state =
  readyTimestamp :: int
  messageCache :: "(string \<times> snapshot) list"
  mediaTracker :: "(string \<times> tracked) list"
  processedRevokes :: "string set"
  timers :: "timer list"
  nextTimer :: nat
  files :: "string set"

definition init :: state where
  "init = \<lparr>readyTimestamp = 0, messageCache = [], mediaTracker = [],
     processedRevokes = {}, timers = [], nextTimer = 0, files = {}\<rparr>"

subsection \<open>Environment and effects of one handler run\<close>

text \<open>
  The environment of one event: the clock, the rendering of a time in Indian Standard
  Time (\<open>toLocaleString\<close>, not modelled further), which file system calls throw
  (by the path written, copied from or renamed from), the \<open>message\<close> of the
  error thrown, and whether the HTTP calls to Telegram fail. \<open>sendPushNotification\<close>
  and \<open>sendTelegramMedia\<close> catch every error of their own and return nothing, so no
  handler reads \<open>telegramFails\<close>: an effect below stands for the call, delivered or not.
\<close>

record env =
  now :: int
  ist :: "int \<Rightarrow> string"
  writeThrows :: "string \<Rightarrow> bool"
  copyThrows :: "string \<Rightarrow> bool"
  renameThrows :: "string \<Rightarrow> bool"
  appendThrows :: bool
  thrownMessage :: string
  telegramFails :: bool

record deleted_record =
  rec_time :: string
  rec_where :: string
  rec_senderName :: string
  rec_senderNumber :: string
  originalMessage :: string
  sentTime :: string
  mediaFilename :: "string option"

text \<open>
  The calls a handler makes to the outside, in order: file moves and copies, appends to
  \<open>messages_log.txt\<close>, \<open>saveDeletedRecord\<close>, \<open>sendPushNotification\<close> (title, body) and
  \<open>sendTelegramMedia\<close> (path read, MIME type, file name, caption).
\<close>

datatype effect =
    Renamed string string
  | Copied string string
  | LogAppended string
  | SaveDeletedRecord deleted_record
  | PushNotification string string
  | TelegramMedia string string string string

subsection \<open>Timers\<close>

text \<open>\<open>setTimeout\<close> whose result the caller drops, and whose result the caller stores.\<close>

definition setTimeout :: "action \<Rightarrow> int \<Rightarrow> env \<Rightarrow> state \<Rightarrow> state" where
  "setTimeout a ms e s =
     s\<lparr>timers := timers s @ [\<lparr>handle = None, due = now e + ms, action = a\<rparr>]\<rparr>"

definition setTimeout_kept :: "action \<Rightarrow> int \<Rightarrow> env \<Rightarrow> state \<Rightarrow> nat \<times> state" where
  "setTimeout_kept a ms e s =
     (nextTimer s,
      s\<lparr>timers := timers s @ [\<lparr>handle = Some (nextTimer s), due = now e + ms, action = a\<rparr>],
        nextTimer := Suc (nextTimer s)\<rparr>)"

definition clearTimeout :: "nat \<Rightarrow> state \<Rightarrow> state" where
  "clearTimeout h s = s\<lparr>timers := filter (\<lambda>tm. handle tm \<noteq> Some h) (timers s)\<rparr>"

text \<open>
  The four callbacks of the source: the cache expiry deletes the id from the cache; the
  media expiry unlinks the media file if it exists and deletes the whole tracker record
  of the id; the message file expiry unlinks the message file; the dedup expiry deletes
  the id from the revoke guard.
\<close>

definition fire :: "action \<Rightarrow> state \<Rightarrow> state" where
  "fire a s =
     (case a of
        CacheExpire k \<Rightarrow> s\<lparr>messageCache := AList.delete k (messageCache s)\<rparr>
      | MediaExpire p k \<Rightarrow>
          s\<lparr>files := files s - {p}, mediaTracker := AList.delete k (mediaTracker s)\<rparr>
      | MsgFileExpire p \<Rightarrow> s\<lparr>files := files s - {p}\<rparr>
      | DedupExpire k \<Rightarrow> s\<lparr>processedRevokes := processedRevokes s - {k}\<rparr>)"

definition fire_all :: "timer list \<Rightarrow> state \<Rightarrow> state" where
  "fire_all tms s = foldl (\<lambda>s' tm. fire (action tm) s') s tms"

text \<open>
  The clock reaches \<open>t\<close>: every timer due by then leaves the pending list and its
  callback runs, earliest first, timers due together in the order they were set.
\<close>

definition advance :: "int \<Rightarrow> state \<Rightarrow> state" where
  "advance t s =
     fire_all (sort_key due (filter (\<lambda>tm. due tm \<le> t) (timers s)))
       (s\<lparr>timers := filter (\<lambda>tm. \<not> due tm \<le> t) (timers s)\<rparr>)"

subsection \<open>Message cache\<close>

text \<open>
  \<open>cacheMessage\<close>: at capacity the first key of the map is deleted, then the id is set
  to the data stamped with \<open>cachedAt\<close>, then an expiry is scheduled whose handle is
  dropped.
\<close>

definition cacheMessage :: "env \<Rightarrow> string \<Rightarrow> snapshot \<Rightarrow> state \<Rightarrow> state" where
  "cacheMessage e k data s =
     (let kept =
            (if length (messageCache s) \<ge> MAX_CACHE_SIZE
             then (case messageCache s of
                     [] \<Rightarrow> []
                   | (oldestKey, _) # _ \<Rightarrow> AList.delete oldestKey (messageCache s))
             else messageCache s)
      in setTimeout (CacheExpire k) MESSAGE_CACHE_TTL_MS e
           (s\<lparr>messageCache := AList.update k (data\<lparr>cachedAt := now e\<rparr>) kept\<rparr>))"

subsection \<open>Helpers of the handlers\<close>

definition chatLocationOf :: "chat \<Rightarrow> string" where
  "chatLocationOf c = (if isGroup c then ''Group: '' @ chatName c else ''Private Chat'')"

text \<open>\<open>contact.name || contact.pushname || contact.number\<close>\<close>

definition senderNameOf :: "contact \<Rightarrow> string" where
  "senderNameOf c =
     (case name c of
        Some n \<Rightarrow>
          if n \<noteq> [] then n
          else (case pushname c of
                  Some p \<Rightarrow> if p \<noteq> [] then p else number c
                | None \<Rightarrow> number c)
      | None \<Rightarrow>
          (case pushname c of
             Some p \<Rightarrow> if p \<noteq> [] then p else number c
           | None \<Rightarrow> number c))"

text \<open>\<open>body || "[<empty>]"\<close>\<close>

definition bodyOrEmptyMarker :: "string \<Rightarrow> string" where
  "bodyOrEmptyMarker b = (if b = [] then ''[<empty>]'' else b)"

text \<open>
  \<open>saveMediaToTemp\<close>: the download, the size limit, the file in the temporary
  directory, its expiry timer and the tracker record, which is set as a whole. Every
  failure inside is caught and gives \<open>null\<close>.
\<close>

definition mediaFileName :: "env \<Rightarrow> msg \<Rightarrow> media \<Rightarrow> string" where
  "mediaFileName e m md =
     decimal (now e) @ ''_'' @ msgLocalId m @ getExtension (mediaMimetype md)"

definition saveMediaToTemp :: "env \<Rightarrow> msg \<Rightarrow> state \<Rightarrow> string option \<times> state" where
  "saveMediaToTemp e m s =
     (if \<not> hasMedia m then (None, s)
      else
        (case downloadMedia m of
           None \<Rightarrow> (None, s)
         | Some md \<Rightarrow>
             if mediaData md = [] then (None, s)
             else if base64ByteLength (mediaData md) > MAX_MEDIA_SIZE_MB * 1024 * 1024
             then (None, s)
             else
               (let fname = mediaFileName e m md;
                    fpath = path_join TEMP_MEDIA_DIR fname
                in if writeThrows e fpath then (None, s)
                   else
                     (let (h, s1) =
                            setTimeout_kept (MediaExpire fpath (msgId m)) DELETE_WINDOW_MS e
                              (s\<lparr>files := insert fpath (files s)\<rparr>)
                      in (Some fname,
                          s1\<lparr>mediaTracker :=
                               AList.update (msgId m)
                                 \<lparr>media_of =
                                    Some \<lparr>filePath = fpath, filename = fname, timeout = h,
                                      mimetype = mediaMimetype md,
                                      sentTimestamp = msgTimestamp m\<rparr>,
                                  transcript_of = None\<rparr>
                                 (mediaTracker s1)\<rparr>)))))"

text \<open>
  \<open>saveDeletedRecord\<close>: the record goes to a JSON file in the saved directory; a failed
  write is caught inside.
\<close>

definition saveDeletedRecord :: "env \<Rightarrow> deleted_record \<Rightarrow> state \<Rightarrow> state \<times> effect list" where
  "saveDeletedRecord e d s =
     (let who = (if rec_senderName d = [] then ''unknown'' else rec_senderName d);
          p = path_join SAVED_MEDIA_DIR
                (''deleted_'' @ decimal (now e) @ ''_'' @ safeName who @ ''.json'')
      in (if writeThrows e p then s else s\<lparr>files := insert p (files s)\<rparr>,
          [SaveDeletedRecord d]))"

subsection \<open>The \<open>message\<close> handler\<close>

text \<open>
  The view-once block: the tracked media file is copied to the saved directory if it
  exists, a notification is sent and the temporary file is sent to Telegram if it can
  be read. The block reads the tracker and never writes it. An exception inside (a
  record without media fields, a failed copy) is caught and ends the block.
\<close>

definition viewOnceCapture ::
  "env \<Rightarrow> msg \<Rightarrow> string \<Rightarrow> string \<Rightarrow> string \<Rightarrow> string \<Rightarrow> string \<Rightarrow> state \<Rightarrow> state \<times> effect list"
where
  "viewOnceCapture e m sender senderActualNumber location time messageBody s =
     (case map_of (mediaTracker s) (msgId m) of
        None \<Rightarrow> (s, [])
      | Some tr \<Rightarrow>
          (case media_of tr of
             None \<Rightarrow> (s, [])
           | Some md \<Rightarrow>
               (let savedPath = path_join SAVED_MEDIA_DIR (filename md)
                in if filePath md \<in> files s \<and> copyThrows e (filePath md) then (s, [])
                   else
                     (let s1 = (if filePath md \<in> files s
                                then s\<lparr>files := insert savedPath (files s)\<rparr> else s);
                          fx1 = (if filePath md \<in> files s
                                 then [Copied (filePath md) savedPath] else [])
                      in (s1,
                          fx1 @
                          [PushNotification (eye @ '' View-Once from '' @ sender)
                             (''Where: '' @ location @ nl @ ''Who: '' @ sender @ '' ('' @
                              senderActualNumber @ '')'' @ nl @ ''Time: '' @ time @ nl @
                              ''Message: '' @
                              (if messageBody = [] then ''[media]'' else messageBody))] @
                          (if filePath md \<in> files s1
                           then [TelegramMedia (filePath md) (mimetype md) (filename md)
                                   (eye @ '' View-once from '' @ sender @ '' ('' @
                                    senderActualNumber @ '')'' @ nl @ ''In: '' @ location)]
                           else []))))))"

text \<open>
  The message file block: the text record of the message is written to the temporary
  directory, its expiry is scheduled, and the message file fields are written to the
  tracker: a new record if the id has none, otherwise the three fields of the existing
  record. A failed write is caught after the path was assigned.
\<close>

definition msgFileName :: "env \<Rightarrow> msg \<Rightarrow> string \<Rightarrow> string" where
  "msgFileName e m sender =
     decimal (now e) @ ''_'' @ safeName sender @ ''_'' @ msgLocalId m @ ''.txt''"

definition saveMessageFile :: "env \<Rightarrow> msg \<Rightarrow> string \<Rightarrow> state \<Rightarrow> string option \<times> state" where
  "saveMessageFile e m sender s =
     (let fname = msgFileName e m sender;
          fpath = path_join TEMP_MEDIA_DIR fname
      in if writeThrows e fpath then (Some fpath, s)
         else
           (let (h, s1) =
                  setTimeout_kept (MsgFileExpire fpath) DELETE_WINDOW_MS e
                    (s\<lparr>files := insert fpath (files s)\<rparr>);
                slot = \<lparr>msgFilePath = fpath, msgFilename = fname, msgFileTimeout = h\<rparr>
            in (Some fpath,
                s1\<lparr>mediaTracker :=
                     (case map_of (mediaTracker s1) (msgId m) of
                        None \<Rightarrow>
                          AList.update (msgId m)
                            \<lparr>media_of = None, transcript_of = Some slot\<rparr> (mediaTracker s1)
                      | Some existing \<Rightarrow>
                          AList.update (msgId m)
                            (existing\<lparr>transcript_of := Some slot\<rparr>) (mediaTracker s1))\<rparr>)))"

text \<open>The entry the handler appends to \<open>messages_log.txt\<close>.\<close>

definition messageLogEntry :: "string \<Rightarrow> string \<Rightarrow> string \<Rightarrow> string \<Rightarrow> string \<Rightarrow> string \<Rightarrow> string" where
  "messageLogEntry time location sender senderActualNumber messageBody mediaRef =
     ''Time: '' @ time @ nl @ ''Where: '' @ location @ nl @ ''Who: '' @ sender @ '' ('' @
     senderActualNumber @ '')'' @ nl @ ''Message: '' @ messageBody @ mediaRef @ nl @
     ''------------------------------'' @ nl"

definition message_handler :: "env \<Rightarrow> msg \<Rightarrow> state \<Rightarrow> state \<times> effect list" where
  "message_handler e m s =
     (case msgChat m of
        None \<Rightarrow> (s, [])
      | Some ch \<Rightarrow>
          (case msgContact m of
             None \<Rightarrow> (s, [])
           | Some ct \<Rightarrow>
               (let sender = senderNameOf ct;
                    senderActualNumber = number ct;
                    time = ist e (now e);
                    messageBody = bodyOrEmptyMarker (msgBody m);
                    location = chatLocationOf ch;
                    (saved, s1) = (if hasMedia m then saveMediaToTemp e m s else (None, s));
                    mediaRef = (case saved of
                                  Some f \<Rightarrow> nl @ ''Media: media/temp/'' @ f
                                | None \<Rightarrow> []);
                    (s2, fx2) =
                      (if isViewOnce m \<and> hasMedia m
                       then viewOnceCapture e m sender senderActualNumber location time
                              messageBody s1
                       else (s1, []))
                in if appendThrows e then (s2, fx2)
                   else
                     (let logEntry = messageLogEntry time location sender senderActualNumber
                                       messageBody mediaRef;
                          (mfp, s3) = saveMessageFile e m sender s2
                      in (cacheMessage e (msgId m)
                            \<lparr>body = messageBody, senderName = sender,
                              senderNumber = senderActualNumber, chatLocation = location,
                              timestamp = msgTimestamp m, cachedMsgFilePath = mfp,
                              cachedAt = 0\<rparr> s3,
                          fx2 @ [LogAppended logEntry])))))"

subsection \<open>The \<open>message_create\<close> and \<open>ready\<close> handlers\<close>

definition message_create_handler :: "env \<Rightarrow> msg \<Rightarrow> state \<Rightarrow> state \<times> effect list" where
  "message_create_handler e m s =
     (if fromMe m then (s, [])
      else if map_of (messageCache s) (msgId m) \<noteq> None then (s, [])
      else
        (case msgChat m of
           None \<Rightarrow> (s, [])
         | Some ch \<Rightarrow>
             (case msgContact m of
                None \<Rightarrow> (s, [])
              | Some ct \<Rightarrow>
                  (cacheMessage e (msgId m)
                     \<lparr>body = bodyOrEmptyMarker (msgBody m), senderName = senderNameOf ct,
                       senderNumber = number ct, chatLocation = chatLocationOf ch,
                       timestamp = msgTimestamp m, cachedMsgFilePath = None,
                       cachedAt = 0\<rparr> s,
                   []))))"

text \<open>
  The \<open>ready\<close> handler calls \<open>sendPushNotification\<close> and awaits it; only when the
  await has returned does it assign \<open>readyTimestamp = Date.now()\<close>. The two parts
  are two steps of the model, each with its own clock: \<open>ready_handler\<close> is the part up
  to the await, which leaves the state as it is, and \<open>ready_resumed\<close> is the
  assignment after it. Other handlers may run between the two.
\<close>

definition ready_handler :: "env \<Rightarrow> state \<Rightarrow> state \<times> effect list" where
  "ready_handler e s =
     (s,
      [PushNotification ([CHR 0xE2, CHR 0x9C, CHR 0x85] @ '' WhatsApp Connected'')
         (''Bot is now connected and ready.'' @ nl @ ''Time: '' @ ist e (now e) @ nl @ nl @
          ''Commands:'' @ nl @ ''/status '' @ [CHR 0xE2, CHR 0x80, CHR 0x94] @
          '' Check bot status'' @ nl @ ''/rebuild '' @ [CHR 0xE2, CHR 0x80, CHR 0x94] @
          '' Re-authenticate'')])"

definition ready_resumed :: "env \<Rightarrow> state \<Rightarrow> state \<times> effect list" where
  "ready_resumed e s = (s\<lparr>readyTimestamp := now e\<rparr>, [])"

subsection \<open>The \<open>message_revoke_everyone\<close> handler\<close>

record resolved =
  res_chatLocation :: string
  res_senderName :: string
  res_senderNumber :: string
  res_originalText :: string

text \<open>
  The merge of the three sources: the chat of the after-reference, the contact and
  body of the before-reference if there is one, and for each field that still holds
  its placeholder the cached snapshot if there is one.
\<close>

definition resolveFields :: "reference \<Rightarrow> reference option \<Rightarrow> snapshot option \<Rightarrow> resolved" where
  "resolveFields afterMsg beforeMsg cached =
     (let location0 = (case refChat afterMsg of
                         Some c \<Rightarrow> chatLocationOf c
                       | None \<Rightarrow> ''Unknown Chat'');
          sender0 = (case beforeMsg of
                       None \<Rightarrow> ''Unknown''
                     | Some b \<Rightarrow> (case refContact b of
                                   Some c \<Rightarrow> senderNameOf c
                                 | None \<Rightarrow> ''Unknown''));
          number0 = (case beforeMsg of
                       None \<Rightarrow> ''Unknown''
                     | Some b \<Rightarrow> (case refContact b of
                                   Some c \<Rightarrow> number c
                                 | None \<Rightarrow> ''Unknown''));
          text0 = (case beforeMsg of
                     None \<Rightarrow> ''[Unknown - message not cached]''
                   | Some b \<Rightarrow> bodyOrEmptyMarker (refBody b))
      in case cached of
           None \<Rightarrow>
             \<lparr>res_chatLocation = location0, res_senderName = sender0,
               res_senderNumber = number0, res_originalText = text0\<rparr>
         | Some c \<Rightarrow>
             \<lparr>res_chatLocation =
                 (if location0 = ''Unknown Chat'' then chatLocation c else location0),
               res_senderName = (if sender0 = ''Unknown'' then senderName c else sender0),
               res_senderNumber = (if number0 = ''Unknown'' then senderNumber c else number0),
               res_originalText =
                 (if text0 = ''[Unknown - message not cached]'' then body c else text0)\<rparr>)"

definition revokedId :: "reference \<Rightarrow> reference option \<Rightarrow> string" where
  "revokedId afterMsg beforeMsg =
     (case beforeMsg of Some b \<Rightarrow> refId b | None \<Rightarrow> refId afterMsg)"

text \<open>\<open>fs.renameSync\<close> on the set of existing paths.\<close>

definition renameSync :: "string \<Rightarrow> string \<Rightarrow> state \<Rightarrow> state" where
  "renameSync src dst s = s\<lparr>files := insert dst (files s - {src})\<rparr>"

text \<open>
  The promotion of one tracker record: for the media fields and then for the message
  file fields, the expiry timer is cleared and the file, if it exists, is moved to the
  saved directory. Only a moved media file gives a media reference for the log entry.
  The moves are not guarded: a throwing \<open>renameSync\<close> leaves the block (first
  component \<open>True\<close>) with what was done before.
\<close>

definition promoteTracked :: "env \<Rightarrow> tracked \<Rightarrow> state \<Rightarrow> bool \<times> string \<times> state \<times> effect list" where
  "promoteTracked e t s =
     (let (threw, mediaRef, s1, fx1) =
            (case media_of t of
               None \<Rightarrow> (False, [], s, [])
             | Some md \<Rightarrow>
                 (let s' = clearTimeout (timeout md) s;
                      savedPath = path_join SAVED_MEDIA_DIR (filename md)
                  in if filePath md \<in> files s'
                     then (if renameThrows e (filePath md) then (True, [], s', [])
                           else (False, nl @ ''Saved Media: media/saved/'' @ filename md,
                                 renameSync (filePath md) savedPath s',
                                 [Renamed (filePath md) savedPath]))
                     else (False, [], s', [])))
      in if threw then (True, mediaRef, s1, fx1)
         else
           (case transcript_of t of
              None \<Rightarrow> (False, mediaRef, s1, fx1)
            | Some ts \<Rightarrow>
                (let s2 = clearTimeout (msgFileTimeout ts) s1;
                     savedMsgPath = path_join SAVED_MEDIA_DIR (msgFilename ts)
                 in if msgFilePath ts \<in> files s2
                    then (if renameThrows e (msgFilePath ts) then (True, mediaRef, s2, fx1)
                          else (False, mediaRef, renameSync (msgFilePath ts) savedMsgPath s2,
                                fx1 @ [Renamed (msgFilePath ts) savedMsgPath]))
                    else (False, mediaRef, s2, fx1))))"

text \<open>
  The text-only fallback, taken when the tracker has no record but the snapshot names a
  message file: the file is moved if it exists; a failed move is caught.
\<close>

definition moveCachedMsgFile :: "env \<Rightarrow> snapshot \<Rightarrow> state \<Rightarrow> state \<times> effect list" where
  "moveCachedMsgFile e c s =
     (case cachedMsgFilePath c of
        None \<Rightarrow> (s, [])
      | Some p \<Rightarrow>
          if p \<noteq> [] \<and> p \<in> files s \<and> \<not> renameThrows e p
          then (renameSync p (path_join SAVED_MEDIA_DIR (basename p)) s,
                [Renamed p (path_join SAVED_MEDIA_DIR (basename p))])
          else (s, []))"

definition sentTimeOf :: "env \<Rightarrow> reference option \<Rightarrow> snapshot option \<Rightarrow> string" where
  "sentTimeOf e beforeMsg cached =
     (let fromCache = (case cached of
                         None \<Rightarrow> ''Unknown''
                       | Some c \<Rightarrow> if timestamp c \<noteq> 0 then ist e (timestamp c * 1000)
                                   else ''Unknown'')
      in case beforeMsg of
           None \<Rightarrow> fromCache
         | Some b \<Rightarrow> if refTimestamp b \<noteq> 0 then ist e (refTimestamp b * 1000) else fromCache)"

text \<open>The deleted media goes to Telegram from the saved directory, else from the temporary file.\<close>

definition sendDeletedMedia :: "tracked option \<Rightarrow> resolved \<Rightarrow> state \<Rightarrow> effect list" where
  "sendDeletedMedia tr r s =
     (case tr of
        None \<Rightarrow> []
      | Some t \<Rightarrow>
          (case media_of t of
             None \<Rightarrow> []
           | Some md \<Rightarrow>
               (let tgMediaPath =
                      (if path_join SAVED_MEDIA_DIR (filename md) \<in> files s
                       then path_join SAVED_MEDIA_DIR (filename md) else filePath md)
                in if tgMediaPath \<in> files s
                   then [TelegramMedia tgMediaPath (mimetype md) (filename md)
                           (paperclip @ '' Deleted file from '' @ res_senderName r @ '' ('' @
                            res_senderNumber r @ '')'' @ nl @ ''In: '' @ res_chatLocation r)]
                   else [])))"

text \<open>The three outputs of a reconciled deletion: log entry, record and notification.\<close>

definition deletedLogEntry :: "env \<Rightarrow> resolved \<Rightarrow> string \<Rightarrow> string" where
  "deletedLogEntry e r mediaRef =
     nl @ wastebasket @ '' DELETED MESSAGE'' @ nl @ ''Time: '' @ ist e (now e) @ nl @
     ''Where: '' @ res_chatLocation r @ nl @ ''Who: '' @ res_senderName r @ '' ('' @
     res_senderNumber r @ '')'' @ nl @ ''Original: '' @ res_originalText r @ mediaRef @ nl @
     ''=============================='' @ nl"

definition deletedRecord ::
  "env \<Rightarrow> resolved \<Rightarrow> reference option \<Rightarrow> snapshot option \<Rightarrow> tracked option \<Rightarrow> deleted_record"
where
  "deletedRecord e r beforeMsg cached tr =
     \<lparr>rec_time = ist e (now e), rec_where = res_chatLocation r,
       rec_senderName = res_senderName r, rec_senderNumber = res_senderNumber r,
       originalMessage = res_originalText r, sentTime = sentTimeOf e beforeMsg cached,
       mediaFilename =
         (case tr of
            None \<Rightarrow> None
          | Some t \<Rightarrow>
              (case media_of t of
                 None \<Rightarrow> None
               | Some md \<Rightarrow> if filename md \<noteq> [] then Some (filename md) else None))\<rparr>"

definition deletedNotification ::
  "env \<Rightarrow> resolved \<Rightarrow> reference option \<Rightarrow> snapshot option \<Rightarrow> effect"
where
  "deletedNotification e r beforeMsg cached =
     PushNotification (wastebasket @ '' Deleted by '' @ res_senderName r)
       (''Where: '' @ res_chatLocation r @ nl @ ''Who: '' @ res_senderName r @ '' ('' @
        res_senderNumber r @ '')'' @ nl @ ''Sent: '' @ sentTimeOf e beforeMsg cached @ nl @
        ''Deleted: '' @ ist e (now e) @ nl @ ''Message: '' @ res_originalText r)"

text \<open>
  The body of the handler's \<open>try\<close>. The first component is the message of the
  exception that left it, if one did: a throwing move of a tracked file or a throwing
  append to the log. The state and the calls made up to that point stay.
\<close>

definition revoke_try ::
  "env \<Rightarrow> reference \<Rightarrow> reference option \<Rightarrow> state \<Rightarrow> string option \<times> state \<times> effect list"
where
  "revoke_try e afterMsg beforeMsg s =
     (let k = revokedId afterMsg beforeMsg;
          cached = map_of (messageCache s) k;
          r = resolveFields afterMsg beforeMsg cached;
          tr = map_of (mediaTracker s) k;
          (threw, mediaRef, s1, fx1) =
            (case tr of
               None \<Rightarrow> (False, [], s, [])
             | Some t \<Rightarrow> promoteTracked e t s)
      in if threw then (Some (thrownMessage e), s1, fx1)
         else
           (let (s2, fx2) =
                  (case tr of
                     Some t \<Rightarrow> (s1, [])
                   | None \<Rightarrow> (case cached of
                                None \<Rightarrow> (s1, [])
                              | Some c \<Rightarrow> moveCachedMsgFile e c s1))
            in if appendThrows e then (Some (thrownMessage e), s2, fx1 @ fx2)
               else
                 (let (s3, fx3) = saveDeletedRecord e (deletedRecord e r beforeMsg cached tr) s2;
                      fx4 = sendDeletedMedia tr r s3;
                      s4 = s3\<lparr>mediaTracker :=
                                (case tr of
                                   None \<Rightarrow> mediaTracker s3
                                 | Some t \<Rightarrow> AList.delete k (mediaTracker s3)),
                              messageCache := AList.delete k (messageCache s3)\<rparr>
                  in (None, s4,
                      fx1 @ fx2 @ [LogAppended (deletedLogEntry e r mediaRef)] @ fx3 @
                      [deletedNotification e r beforeMsg cached] @ fx4))))"

text \<open>The mark in the revoke guard and its expiry, whose handle is dropped.\<close>

definition markProcessed :: "env \<Rightarrow> string \<Rightarrow> state \<Rightarrow> state" where
  "markProcessed e k s =
     setTimeout (DedupExpire k) REVOKE_DEDUP_TTL_MS e
       (s\<lparr>processedRevokes := insert k (processedRevokes s)\<rparr>)"

definition fallbackNotification :: "string \<Rightarrow> effect" where
  "fallbackNotification err =
     PushNotification (wastebasket @ '' Message Deleted'')
       (''A message was deleted but details could not be retrieved.'' @ nl @
        ''Error: '' @ err)"

text \<open>
  The handler: the startup grace check, the duplicate check on the id of the
  after-reference, the mark in the guard, then the \<open>try\<close> and its \<open>catch\<close>, which
  sends the fallback notification.
\<close>

definition revoke_handler ::
  "env \<Rightarrow> reference \<Rightarrow> reference option \<Rightarrow> state \<Rightarrow> state \<times> effect list"
where
  "revoke_handler e afterMsg beforeMsg s =
     (if now e - readyTimestamp s < STARTUP_GRACE_MS then (s, [])
      else if refId afterMsg \<in> processedRevokes s then (s, [])
      else
        (case revoke_try e afterMsg beforeMsg (markProcessed e (refId afterMsg) s) of
           (None, s2, fx) \<Rightarrow> (s2, fx)
         | (Some err, s2, fx) \<Rightarrow> (s2, fx @ [fallbackNotification err])))"

subsection \<open>Events\<close>

text \<open>
  What the event loop runs: the \<open>ready\<close> event (its handler up to the await), the
  resumption of that handler after the await, and the three message events.
\<close>

datatype event =
    Ready env
  | ReadyResumed env
  | Message env msg
  | MessageCreate env msg
  | Revoke env reference "reference option"

fun event_time :: "event \<Rightarrow> int" where
  "event_time (Ready e) = now e"
| "event_time (ReadyResumed e) = now e"
| "event_time (Message e m) = now e"
| "event_time (MessageCreate e m) = now e"
| "event_time (Revoke e a b) = now e"

fun handle_event :: "event \<Rightarrow> state \<Rightarrow> state \<times> effect list" where
  "handle_event (Ready e) s = ready_handler e s"
| "handle_event (ReadyResumed e) s = ready_resumed e s"
| "handle_event (Message e m) s = message_handler e m s"
| "handle_event (MessageCreate e m) s = message_create_handler e m s"
| "handle_event (Revoke e a b) s = revoke_handler e a b s"

text \<open>One event: the timers due by its time run, then its handler.\<close>

definition step :: "state \<Rightarrow> event \<Rightarrow> state \<times> effect list" where
  "step s ev = handle_event ev (advance (event_time ev) s)"

fun run :: "state \<Rightarrow> event list \<Rightarrow> state" where
  "run s [] = s"
| "run s (ev # evs) = run (fst (step s ev)) evs"

text \<open>A sequence of \<open>cacheMessage\<close> calls, each with its clock, id and data.\<close>

fun cacheMessages :: "(env \<times> string \<times> snapshot) list \<Rightarrow> state \<Rightarrow> state" where
  "cacheMessages [] s = s"
| "cacheMessages ((e, k, d) # ps) s = cacheMessages ps (cacheMessage e k d s)"

subsection \<open>Sample inputs\<close>

text \<open>
  An environment at a given time in which no file system call throws (times are
  rendered as decimals), a snapshot, and a sequence of puts with pairwise different ids.
\<close>

definition env_at :: "int \<Rightarrow> env" where
  "env_at t = \<lparr>now = t, ist = decimal, writeThrows = (\<lambda>p. False), copyThrows = (\<lambda>p. False),
     renameThrows = (\<lambda>p. False), appendThrows = False, thrownMessage = [],
     telegramFails = False\<rparr>"

definition snap0 :: snapshot where
  "snap0 = \<lparr>body = ''hello'', senderName = ''Asha'', senderNumber = ''911234567890'',
     chatLocation = ''Private Chat'', timestamp = 1700000000, cachedMsgFilePath = None,
     cachedAt = 0\<rparr>"

definition numbered_puts :: "nat \<Rightarrow> (env \<times> string \<times> snapshot) list" where
  "numbered_puts n = map (\<lambda>i. (env_at (int i), replicate (Suc i) (CHR ''m''), snap0)) [0..<n]"

definition after1 :: reference where
  "after1 = \<lparr>refId = ''false_911@c.us_AB12'', refBody = [], refTimestamp = 1700000000,
     refChat = Some \<lparr>isGroup = False, chatName = ''Asha''\<rparr>, refContact = None\<rparr>"

definition msg1 :: msg where
  "msg1 = \<lparr>msgId = ''false_911@c.us_AB12'', msgLocalId = ''AB12'', msgBody = ''hello'',
     msgTimestamp = 1700000000, hasMedia = True, isViewOnce = False, fromMe = False,
     msgChat = Some \<lparr>isGroup = False, chatName = ''Asha''\<rparr>,
     msgContact = Some \<lparr>name = Some ''Asha'', pushname = None, number = ''911''\<rparr>,
     downloadMedia = Some \<lparr>mediaData = ''QUJD'', mediaMimetype = ''image/jpeg''\<rparr>\<rparr>"

text \<open>The record and the notification the reconciliation of a revoke event builds in a state.\<close>

definition reconciledRecord :: "env \<Rightarrow> reference \<Rightarrow> reference option \<Rightarrow> state \<Rightarrow> deleted_record" where
  "reconciledRecord e a b s =
     deletedRecord e (resolveFields a b (map_of (messageCache s) (revokedId a b))) b
       (map_of (messageCache s) (revokedId a b)) (map_of (mediaTracker s) (revokedId a b))"

definition reconciledNotification :: "env \<Rightarrow> reference \<Rightarrow> reference option \<Rightarrow> state \<Rightarrow> effect" where
  "reconciledNotification e a b s =
     deletedNotification e (resolveFields a b (map_of (messageCache s) (revokedId a b))) b
       (map_of (messageCache s) (revokedId a b))"

text \<open>The state after the sample message has been handled in the initial state.\<close>

definition after_msg1 :: state where
  "after_msg1 = fst (step init (Message (env_at 1700000000000) msg1))"

text \<open>
  Three environments: one in which only the append to the log throws, one in which only
  the moves throw, and one in which the calls that are guarded on their own fail (every
  write and every Telegram call) while the append and the moves succeed.
\<close>

definition env_append_fails :: "int \<Rightarrow> env" where
  "env_append_fails t =
     (env_at t)\<lparr>appendThrows := True, thrownMessage := ''ENOSPC: no space left on device''\<rparr>"

definition env_move_fails :: "int \<Rightarrow> env" where
  "env_move_fails t =
     (env_at t)\<lparr>renameThrows := (\<lambda>p. True), thrownMessage := ''EACCES: permission denied''\<rparr>"

definition env_guarded_fail :: "int \<Rightarrow> env" where
  "env_guarded_fail t = (env_at t)\<lparr>writeThrows := (\<lambda>p. True), telegramFails := True\<rparr>"





text \<open>The sample message flagged view-once.\<close>

definition msg1_view_once :: msg where
  "msg1_view_once = msg1\<lparr>isViewOnce := True\<rparr>"


text \<open>
  The invariant of the revoke guard: the id of every pending dedup timer is in the
  guard, and the pending dedup timers of one id are due at the same time.
\<close>

definition dedup_inv :: "state \<Rightarrow> bool" where
  "dedup_inv s =
     list_all
       (\<lambda>tm. case action tm of
               DedupExpire k \<Rightarrow>
                 k \<in> processedRevokes s \<and>
                 list_all (\<lambda>tm'. action tm' \<noteq> DedupExpire k \<or> due tm' = due tm) (timers s)
             | _ \<Rightarrow> True)
       (timers s)"

text \<open>A timer whose callback is not the expiry of a guard entry.\<close>

definition other_timer :: "timer \<Rightarrow> bool" where
  "other_timer tm = (case action tm of DedupExpire k \<Rightarrow> False | _ \<Rightarrow> True)"

text \<open>
  The id is in the revoke guard, its expiry due at the given time is pending with no
  handle, and no other expiry of this id is pending.
\<close>

definition guard_held :: "string \<Rightarrow> int \<Rightarrow> state \<Rightarrow> bool" where
  "guard_held k T s =
     (k \<in> processedRevokes s \<and>
      \<lparr>handle = None, due = T, action = DedupExpire k\<rparr> \<in> set (timers s) \<and>
      list_all (\<lambda>tm. action tm \<noteq> DedupExpire k \<or> due tm = T) (timers s))"

section \<open>Properties\<close>

subsection \<open>File names and sizes\<close>

text \<open>
  The helpers at sample inputs: a character of two bytes is one code unit and gives one
  underscore, a character of four bytes is a surrogate pair and gives two; the padding
  is taken off the character count before the scaling; an inherited property name
  gives the text of the inherited value.
\<close>

lemma safeName_two_byte_character:
  "safeName [CHR ''J'', CHR ''o'', CHR ''s'', CHR 0xC3, CHR 0xA9] = ''Jos_''"
  by (simp add: safeName_def alnum_def codeUnits_def)

lemma safeName_surrogate_pair:
  "safeName (''a'' @ [CHR 0xF0, CHR 0x9F, CHR 0x98, CHR 0x80] @ ''b c'') = ''a__b_c''"
  by (simp add: safeName_def alnum_def codeUnits_def numeral_2_eq_2)

lemma base64ByteLength_samples:
  "base64ByteLength ''ABCD='' = 3"
  "base64ByteLength ''QUJD'' = 3"
  "base64ByteLength ''QUI='' = 2"
  "base64ByteLength ''QQ=='' = 1"
  "base64ByteLength ''A==='' = 1"
  "base64ByteLength ''=='' = 0"
  "base64ByteLength ''='' = 0"
  by (simp_all add: base64ByteLength_def jsLength_def codeUnits_def)

lemma getExtension_samples:
  "getExtension ''image/jpeg'' = ''.jpg''"
  "getExtension ''audio/x-foo; a=b'' = ''.x-foo''"
  "getExtension ''weird'' = ''.undefined''"
  "getExtension [] = ''.bin''"
  "getExtension ''toString'' = ''function toString() { [native code] }''"
  by (simp_all add: getExtension_def extension_table_def inherited_table_def)

subsection \<open>Timers and the cache\<close>


lemma fire_all_Nil [simp]: "fire_all [] s = s"
  by (simp add: fire_all_def)

lemma fire_all_Cons [simp]: "fire_all (tm # tms) s = fire_all tms (fire (action tm) s)"
  by (simp add: fire_all_def)

lemma delete_as_filter: "AList.delete k al = filter (\<lambda>p. fst p \<noteq> k) al"
  by (induction al) (auto simp: AList.delete_eq)

lemma messageCache_fire_all:
  "messageCache (fire_all tms s) =
     filter (\<lambda>p. CacheExpire (fst p) \<notin> action ` set tms) (messageCache s)"
proof (induction tms arbitrary: s)
  case Nil
  then show ?case by simp
next
  case (Cons tm tms)
  show ?case
    by (cases "action tm") (auto simp: Cons fire_def delete_as_filter intro!: filter_cong)
qed

lemma processedRevokes_fire_all:
  "processedRevokes (fire_all tms s) =
     processedRevokes s - {k. DedupExpire k \<in> action ` set tms}"
proof (induction tms arbitrary: s)
  case Nil
  then show ?case by simp
next
  case (Cons tm tms)
  show ?case
    by (cases "action tm") (auto simp: Cons fire_def)
qed

lemma timers_fire_all [simp]: "timers (fire_all tms s) = timers s"
  by (induction tms arbitrary: s) (auto simp: fire_def split: action.splits)

lemma readyTimestamp_fire_all [simp]: "readyTimestamp (fire_all tms s) = readyTimestamp s"
  by (induction tms arbitrary: s) (auto simp: fire_def split: action.splits)

lemma nextTimer_fire_all [simp]: "nextTimer (fire_all tms s) = nextTimer s"
  by (induction tms arbitrary: s) (auto simp: fire_def split: action.splits)

lemma mediaTracker_fire_all:
  "mediaTracker (fire_all tms s) =
     filter (\<lambda>p. \<not> (\<exists>f. MediaExpire f (fst p) \<in> action ` set tms)) (mediaTracker s)"
proof (induction tms arbitrary: s)
  case Nil
  then show ?case by simp
next
  case (Cons tm tms)
  show ?case
    by (cases "action tm") (auto simp: Cons fire_def delete_as_filter intro!: filter_cong)
qed

lemma files_fire_all:
  "files (fire_all tms s) =
     files s - {p. (\<exists>k. MediaExpire p k \<in> action ` set tms) \<or> MsgFileExpire p \<in> action ` set tms}"
proof (induction tms arbitrary: s)
  case Nil
  then show ?case by simp
next
  case (Cons tm tms)
  show ?case
    by (cases "action tm") (auto simp: Cons fire_def)
qed


lemma set_due_sorted:
  "set (sort_key due (filter (\<lambda>tm. due tm \<le> t) tms)) = {tm \<in> set tms. due tm \<le> t}"
  by auto

lemma messageCache_advance:
  "messageCache (advance t s) =
     filter (\<lambda>p. CacheExpire (fst p) \<notin> action ` {tm \<in> set (timers s). due tm \<le> t})
       (messageCache s)"
  by (simp add: advance_def messageCache_fire_all)

lemma processedRevokes_advance:
  "processedRevokes (advance t s) =
     processedRevokes s - {k. DedupExpire k \<in> action ` {tm \<in> set (timers s). due tm \<le> t}}"
  by (simp add: advance_def processedRevokes_fire_all)

lemma timers_advance: "timers (advance t s) = filter (\<lambda>tm. \<not> due tm \<le> t) (timers s)"
  by (simp add: advance_def)

lemma readyTimestamp_advance [simp]: "readyTimestamp (advance t s) = readyTimestamp s"
  by (simp add: advance_def)

lemma messageCache_setTimeout [simp]: "messageCache (setTimeout a ms e s) = messageCache s"
  by (simp add: setTimeout_def)

lemma timers_setTimeout:
  "timers (setTimeout a ms e s) = timers s @ [\<lparr>handle = None, due = now e + ms, action = a\<rparr>]"
  by (simp add: setTimeout_def)

lemma evict_keys:
  assumes "distinct (map fst c)" and "c \<noteq> []"
  shows "(case c of [] \<Rightarrow> [] | (oldestKey, _) # _ \<Rightarrow> AList.delete oldestKey c) = tl c"
proof (cases c)
  case Nil
  with assms show ?thesis by simp
next
  case (Cons p ps)
  obtain k v where p: "p = (k, v)" by (cases p)
  from assms Cons p have "k \<notin> fst ` set ps" by auto
  then show ?thesis using Cons p by simp
qed

lemma messageCache_cacheMessage:
  "messageCache (cacheMessage e k d s) =
     AList.update k (d\<lparr>cachedAt := now e\<rparr>)
       (if length (messageCache s) \<ge> MAX_CACHE_SIZE
        then (case messageCache s of [] \<Rightarrow> [] | (oldestKey, _) # _ \<Rightarrow> AList.delete oldestKey (messageCache s))
        else messageCache s)"
  by (simp add: cacheMessage_def Let_def)

lemma map_of_cacheMessage:
  "map_of (messageCache (cacheMessage e k d s)) k = Some (d\<lparr>cachedAt := now e\<rparr>)"
  by (simp add: messageCache_cacheMessage AList.update_conv')

lemma timers_cacheMessage:
  "timers (cacheMessage e k d s) =
     timers s @ [\<lparr>handle = None, due = now e + MESSAGE_CACHE_TTL_MS, action = CacheExpire k\<rparr>]"
  by (simp add: cacheMessage_def Let_def setTimeout_def)

lemma length_update_le: "length (AList.update k v al) \<le> Suc (length al)"
  by (induction al) auto

lemma length_cacheMessage:
  assumes "length (messageCache s) \<le> MAX_CACHE_SIZE"
  shows "length (messageCache (cacheMessage e k d s)) \<le> MAX_CACHE_SIZE"
proof (cases "length (messageCache s) \<ge> MAX_CACHE_SIZE")
  case True
  then obtain p ps where c: "messageCache s = p # ps"
    by (cases "messageCache s") (auto simp: MAX_CACHE_SIZE_def)
  obtain k0 v0 where p: "p = (k0, v0)" by (cases p)
  have "length (AList.delete k0 (messageCache s)) \<le> length ps"
    using c p AList.length_delete_le [of k0 ps] by simp
  then have "length (AList.delete k0 (messageCache s)) < MAX_CACHE_SIZE"
    using assms c by simp
  then show ?thesis
    using True c p length_update_le [of k "d\<lparr>cachedAt := now e\<rparr>" "AList.delete k0 (messageCache s)"]
    by (simp add: messageCache_cacheMessage)
next
  case False
  then show ?thesis
    using length_update_le [of k "d\<lparr>cachedAt := now e\<rparr>" "messageCache s"]
    by (simp add: messageCache_cacheMessage)
qed

lemma distinct_cacheMessage:
  assumes "distinct (map fst (messageCache s))"
  shows "distinct (map fst (messageCache (cacheMessage e k d s)))"
proof -
  have "distinct (map fst (case messageCache s of [] \<Rightarrow> [] | (oldestKey, _) # _ \<Rightarrow> AList.delete oldestKey (messageCache s)))"
    using assms by (auto split: list.splits simp: AList.distinct_delete)
  then show ?thesis
    using assms by (simp add: messageCache_cacheMessage AList.distinct_update)
qed


lemma keys_cacheMessage:
  assumes "distinct (map fst (messageCache s))"
  shows "map fst (messageCache (cacheMessage e k d s)) =
     (let ks = (if length (messageCache s) \<ge> MAX_CACHE_SIZE
                then tl (map fst (messageCache s)) else map fst (messageCache s))
      in if k \<in> set ks then ks else ks @ [k])"
proof (cases "length (messageCache s) \<ge> MAX_CACHE_SIZE")
  case True
  then have ne: "messageCache s \<noteq> []"
    by (auto simp: MAX_CACHE_SIZE_def)
  show ?thesis
    using True evict_keys [OF assms ne]
    by (simp add: messageCache_cacheMessage AList.update_keys map_tl)
next
  case False
  then show ?thesis
    by (simp add: messageCache_cacheMessage AList.update_keys)
qed

lemma keys_cacheMessages:
  assumes "distinct (map fst (messageCache s) @ map (\<lambda>p. fst (snd p)) ps)"
    and "length (messageCache s) \<le> MAX_CACHE_SIZE"
  shows "map fst (messageCache (cacheMessages ps s)) =
     drop (length (messageCache s) + length ps - MAX_CACHE_SIZE)
       (map fst (messageCache s) @ map (\<lambda>p. fst (snd p)) ps)"
  using assms
proof (induction ps arbitrary: s)
  case Nil
  then show ?case by simp
next
  case (Cons p ps)
  obtain e k d where p: "p = (e, k, d)" by (cases p)
  let ?s' = "cacheMessage e k d s"
  let ?ks = "map fst (messageCache s)"
  let ?ids = "map (\<lambda>p. fst (snd p)) ps"
  from Cons.prems p have dist: "distinct ?ks" and fresh: "k \<notin> set ?ks"
    and rest: "distinct (?ks @ k # ?ids)" by auto
  have fresh_tl: "k \<notin> set (tl ?ks)"
    using fresh by (cases ?ks) auto
  have keys': "map fst (messageCache ?s') =
      (if length (messageCache s) \<ge> MAX_CACHE_SIZE then tl ?ks @ [k] else ?ks @ [k])"
    using keys_cacheMessage [OF dist, of e k d] fresh fresh_tl by (simp add: Let_def)
  have len': "length (messageCache ?s') \<le> MAX_CACHE_SIZE"
    by (rule length_cacheMessage [OF Cons.prems(2)])
  have dist': "distinct (map fst (messageCache ?s') @ ?ids)"
  proof (cases "length (messageCache s) \<ge> MAX_CACHE_SIZE")
    case True
    have "set (tl ?ks) \<subseteq> set ?ks" by (cases ?ks) auto
    moreover have "distinct (tl ?ks)" using dist by (rule distinct_tl)
    ultimately show ?thesis using rest True keys' by auto
  next
    case False
    then show ?thesis using rest keys' by auto
  qed
  have IH: "map fst (messageCache (cacheMessages ps ?s')) =
      drop (length (messageCache ?s') + length ps - MAX_CACHE_SIZE)
        (map fst (messageCache ?s') @ ?ids)"
    by (rule Cons.IH [OF dist' len'])
  show ?case
  proof (cases "length (messageCache s) \<ge> MAX_CACHE_SIZE")
    case True
    with Cons.prems(2) have full: "length (messageCache s) = MAX_CACHE_SIZE" by simp
    then obtain k0 ks0 where ks: "?ks = k0 # ks0"
      by (cases ?ks) (auto simp: MAX_CACHE_SIZE_def)
    have l0: "length ks0 + 1 = MAX_CACHE_SIZE"
      using full ks by (metis Suc_eq_plus1 length_Cons length_map)
    have lk: "length (map fst (messageCache ?s')) = MAX_CACHE_SIZE"
      using keys' True ks l0 by simp
    then have lk': "length (messageCache ?s') = MAX_CACHE_SIZE" by simp
    show ?thesis
      using IH keys' True ks l0 full p unfolding lk'
      by simp
  next
    case False
    then have lk: "length (map fst (messageCache ?s')) = Suc (length (messageCache s))"
      using keys' by simp
    then have lk': "length (messageCache ?s') = Suc (length (messageCache s))" by simp
    show ?thesis
      using IH keys' False p unfolding lk'
      by simp
  qed
qed


lemma expired_not_cached:
  assumes "tm \<in> set (timers s)" and "due tm \<le> t" and "action tm = CacheExpire k"
  shows "map_of (messageCache (advance t s)) k = None"
proof -
  have "CacheExpire k \<in> action ` {tm \<in> set (timers s). due tm \<le> t}"
    using assms by force
  then have "k \<notin> fst ` set (messageCache (advance t s))"
    by (auto simp: messageCache_advance)
  then show ?thesis
    by (simp add: map_of_eq_None_iff)
qed

text \<open>
  Claim C10. A second \<open>cacheMessage\<close> for an id does not cancel the expiry the first
  one scheduled. If the second put happens before the first expiry is due, both timers
  are pending afterwards and the entry of the second put is stored; once the clock
  reaches the due time of the first timer the id is gone from the cache, also when
  that is before the retention window of the second put has elapsed.
\<close>

theorem repeated_put_expires_early:
  assumes "now e2 < now e1 + MESSAGE_CACHE_TTL_MS"
    and "now e1 + MESSAGE_CACHE_TTL_MS \<le> t"
  shows "\<lparr>handle = None, due = now e1 + MESSAGE_CACHE_TTL_MS, action = CacheExpire k\<rparr>
           \<in> set (timers (cacheMessage e2 k d2 (advance (now e2) (cacheMessage e1 k d1 s)))) \<and>
         \<lparr>handle = None, due = now e2 + MESSAGE_CACHE_TTL_MS, action = CacheExpire k\<rparr>
           \<in> set (timers (cacheMessage e2 k d2 (advance (now e2) (cacheMessage e1 k d1 s)))) \<and>
         map_of (messageCache (cacheMessage e2 k d2 (advance (now e2) (cacheMessage e1 k d1 s)))) k
           = Some (d2\<lparr>cachedAt := now e2\<rparr>) \<and>
         map_of (messageCache
           (advance t (cacheMessage e2 k d2 (advance (now e2) (cacheMessage e1 k d1 s))))) k = None"
proof -
  let ?t1 = "\<lparr>handle = None, due = now e1 + MESSAGE_CACHE_TTL_MS, action = CacheExpire k\<rparr>"
  let ?s2 = "cacheMessage e2 k d2 (advance (now e2) (cacheMessage e1 k d1 s))"
  have first: "?t1 \<in> set (timers ?s2)"
    using assms(1) by (simp add: timers_cacheMessage timers_advance)
  have second: "\<lparr>handle = None, due = now e2 + MESSAGE_CACHE_TTL_MS, action = CacheExpire k\<rparr>
      \<in> set (timers ?s2)"
    by (simp add: timers_cacheMessage)
  have stored: "map_of (messageCache ?s2) k = Some (d2\<lparr>cachedAt := now e2\<rparr>)"
    by (rule map_of_cacheMessage)
  have gone: "map_of (messageCache (advance t ?s2)) k = None"
    by (rule expired_not_cached [OF first]) (use assms(2) in simp_all)
  from first second stored gone show ?thesis by blast
qed

theorem repeated_put_expires_early_witness:
  "now (env_at 1000) < now (env_at 0) + MESSAGE_CACHE_TTL_MS \<and>
   now (env_at 0) + MESSAGE_CACHE_TTL_MS \<le> 244800500 \<and>
   244800500 < now (env_at 1000) + MESSAGE_CACHE_TTL_MS \<and>
   map_of (messageCache (cacheMessage (env_at 1000) ''m1'' snap0
       (advance (now (env_at 1000)) (cacheMessage (env_at 0) ''m1'' snap0 init)))) ''m1''
     = Some (snap0\<lparr>cachedAt := 1000\<rparr>) \<and>
   map_of (messageCache (advance 244800500 (cacheMessage (env_at 1000) ''m1'' snap0
       (advance (now (env_at 1000)) (cacheMessage (env_at 0) ''m1'' snap0 init))))) ''m1'' = None"
  using repeated_put_expires_early [of "env_at 1000" "env_at 0" 244800500 "''m1''" snap0 snap0 init]
  by (simp add: env_at_def MESSAGE_CACHE_TTL_MS_def DELETE_WINDOW_MS_def)


lemma cacheMessages_inv:
  assumes "distinct (map fst (messageCache s))" and "length (messageCache s) \<le> MAX_CACHE_SIZE"
  shows "distinct (map fst (messageCache (cacheMessages ps s))) \<and>
         length (messageCache (cacheMessages ps s)) \<le> MAX_CACHE_SIZE"
  using assms
proof (induction ps arbitrary: s)
  case Nil
  then show ?case by simp
next
  case (Cons p ps)
  obtain e k d where p: "p = (e, k, d)" by (cases p)
  show ?case
    unfolding p cacheMessages.simps
    by (rule Cons.IH [OF distinct_cacheMessage [OF Cons.prems(1)] length_cacheMessage [OF Cons.prems(2)]])
qed

lemma init_cache [simp]: "messageCache init = []"
  by (simp add: init_def)

text \<open>
  Claim C2. After every sequence of \<open>cacheMessage\<close> calls from the empty cache, the
  cache holds at most \<open>MAX_CACHE_SIZE\<close> = 500 entries. A call on a full cache evicts
  exactly the first key of the map, which is the id that entered the cache earliest
  (the map keeps insertion order; a put for an id that is present rewrites its value
  in place), and then sets the new id. For puts of pairwise different ids the surviving
  ids are the last 500 ids put, in the order they were put.
\<close>

theorem cache_bounded_oldest_evicted:
  "length (messageCache (cacheMessages ps init)) \<le> MAX_CACHE_SIZE \<and>
   (length (messageCache (cacheMessages ps init)) = MAX_CACHE_SIZE \<longrightarrow>
      (\<exists>oldest rest.
         map fst (messageCache (cacheMessages ps init)) = oldest # rest \<and>
         map fst (messageCache (cacheMessage e k d (cacheMessages ps init))) =
           (if k \<in> set rest then rest else rest @ [k]))) \<and>
   (distinct (map (\<lambda>p. fst (snd p)) ps) \<longrightarrow>
      map fst (messageCache (cacheMessages ps init)) =
        drop (length ps - MAX_CACHE_SIZE) (map (\<lambda>p. fst (snd p)) ps))"
proof -
  let ?s = "cacheMessages ps init"
  have inv: "distinct (map fst (messageCache ?s)) \<and> length (messageCache ?s) \<le> MAX_CACHE_SIZE"
    by (rule cacheMessages_inv) simp_all
  have evict: "\<exists>oldest rest.
         map fst (messageCache ?s) = oldest # rest \<and>
         map fst (messageCache (cacheMessage e k d ?s)) =
           (if k \<in> set rest then rest else rest @ [k])"
    if full: "length (messageCache ?s) = MAX_CACHE_SIZE"
  proof -
    obtain oldest rest where ks: "map fst (messageCache ?s) = oldest # rest"
      using full by (cases "map fst (messageCache ?s)") (auto simp: MAX_CACHE_SIZE_def)
    have "map fst (messageCache (cacheMessage e k d ?s)) =
        (if k \<in> set rest then rest else rest @ [k])"
      using keys_cacheMessage [of ?s e k d] inv full ks by (simp add: Let_def)
    with ks show ?thesis by (intro exI conjI)
  qed
  have recent: "map fst (messageCache ?s) =
        drop (length ps - MAX_CACHE_SIZE) (map (\<lambda>p. fst (snd p)) ps)"
    if "distinct (map (\<lambda>p. fst (snd p)) ps)"
    using keys_cacheMessages [of init ps] that by simp
  from inv evict recent show ?thesis by blast
qed

lemma distinct_numbered_puts: "distinct (map (\<lambda>p. fst (snd p)) (numbered_puts n))"
proof -
  have "inj_on (\<lambda>i. replicate (Suc i) (CHR ''m'')) (set [0..<n])"
    by (rule inj_onI) (metis length_replicate nat.inject)
  then show ?thesis
    by (simp add: numbered_puts_def comp_def distinct_map)
qed

theorem cache_bounded_oldest_evicted_witness:
  "distinct (map (\<lambda>p. fst (snd p)) (numbered_puts 502)) \<and>
   length (messageCache (cacheMessages (numbered_puts 502) init)) = MAX_CACHE_SIZE \<and>
   map fst (messageCache (cacheMessages (numbered_puts 502) init)) =
     drop 2 (map (\<lambda>p. fst (snd p)) (numbered_puts 502)) \<and>
   map fst (messageCache (cacheMessage (env_at 502) ''x'' snap0
       (cacheMessages (numbered_puts 502) init))) =
     drop 3 (map (\<lambda>p. fst (snd p)) (numbered_puts 502)) @ [''x'']"
proof -
  let ?ids = "map (\<lambda>p. fst (snd p)) (numbered_puts 502)"
  let ?s = "cacheMessages (numbered_puts 502) init"
  have d: "distinct ?ids" by (rule distinct_numbered_puts)
  have len: "length ?ids = 502" by (simp add: numbered_puts_def)
  note inst = cache_bounded_oldest_evicted [of "numbered_puts 502" "env_at 502" "''x''" snap0]
  from inst d have keys: "map fst (messageCache ?s) = drop 2 ?ids"
    by (simp add: numbered_puts_def MAX_CACHE_SIZE_def)
  then have "length (map fst (messageCache ?s)) = 500"
    using len by simp
  then have full: "length (messageCache ?s) = MAX_CACHE_SIZE"
    by (simp add: MAX_CACHE_SIZE_def)
  from inst [THEN conjunct2, THEN conjunct1, THEN mp, OF full] obtain oldest rest where
    ks: "map fst (messageCache ?s) = oldest # rest" and
    put: "map fst (messageCache (cacheMessage (env_at 502) ''x'' snap0 ?s)) =
           (if ''x'' \<in> set rest then rest else rest @ [''x''])"
    by (elim exE conjE)
  from ks keys have rest: "rest = drop 3 ?ids"
    by (metis drop_Suc drop_drop list.sel(3) numeral_3_eq_3 numeral_2_eq_2 tl_drop add.commute Suc_1 plus_1_eq_Suc)
  have "''x'' \<notin> set ?ids"
    by (auto simp: numbered_puts_def comp_def)
  then have "''x'' \<notin> set rest"
    unfolding rest by (meson in_set_dropD)
  with put rest d full keys show ?thesis by simp
qed

subsection \<open>Frames of the handlers and the startup grace check\<close>

lemma frame_setTimeout [simp]:
  "readyTimestamp (setTimeout a ms e s) = readyTimestamp s"
  "processedRevokes (setTimeout a ms e s) = processedRevokes s"
  "mediaTracker (setTimeout a ms e s) = mediaTracker s"
  "files (setTimeout a ms e s) = files s"
  "nextTimer (setTimeout a ms e s) = nextTimer s"
  by (simp_all add: setTimeout_def)

lemma frame_setTimeout_kept [simp]:
  "readyTimestamp (snd (setTimeout_kept a ms e s)) = readyTimestamp s"
  "processedRevokes (snd (setTimeout_kept a ms e s)) = processedRevokes s"
  "mediaTracker (snd (setTimeout_kept a ms e s)) = mediaTracker s"
  "messageCache (snd (setTimeout_kept a ms e s)) = messageCache s"
  "files (snd (setTimeout_kept a ms e s)) = files s"
  "fst (setTimeout_kept a ms e s) = nextTimer s"
  "timers (snd (setTimeout_kept a ms e s)) =
     timers s @ [\<lparr>handle = Some (nextTimer s), due = now e + ms, action = a\<rparr>]"
  by (simp_all add: setTimeout_kept_def)

lemma frame_clearTimeout [simp]:
  "readyTimestamp (clearTimeout h s) = readyTimestamp s"
  "processedRevokes (clearTimeout h s) = processedRevokes s"
  "mediaTracker (clearTimeout h s) = mediaTracker s"
  "messageCache (clearTimeout h s) = messageCache s"
  "files (clearTimeout h s) = files s"
  "timers (clearTimeout h s) = filter (\<lambda>tm. handle tm \<noteq> Some h) (timers s)"
  by (simp_all add: clearTimeout_def)

lemma frame_renameSync [simp]:
  "readyTimestamp (renameSync a b s) = readyTimestamp s"
  "processedRevokes (renameSync a b s) = processedRevokes s"
  "mediaTracker (renameSync a b s) = mediaTracker s"
  "messageCache (renameSync a b s) = messageCache s"
  "timers (renameSync a b s) = timers s"
  "files (renameSync a b s) = insert b (files s - {a})"
  by (simp_all add: renameSync_def)

lemma frame_cacheMessage [simp]:
  "readyTimestamp (cacheMessage e k d s) = readyTimestamp s"
  "processedRevokes (cacheMessage e k d s) = processedRevokes s"
  "mediaTracker (cacheMessage e k d s) = mediaTracker s"
  "files (cacheMessage e k d s) = files s"
  by (simp_all add: cacheMessage_def Let_def)

lemma frame_saveMediaToTemp [simp]:
  "readyTimestamp (snd (saveMediaToTemp e m s)) = readyTimestamp s"
  "processedRevokes (snd (saveMediaToTemp e m s)) = processedRevokes s"
  "messageCache (snd (saveMediaToTemp e m s)) = messageCache s"
  by (simp_all add: saveMediaToTemp_def Let_def split_beta split: option.splits)

lemma frame_viewOnceCapture [simp]:
  "readyTimestamp (fst (viewOnceCapture e m a b c d f s)) = readyTimestamp s"
  "processedRevokes (fst (viewOnceCapture e m a b c d f s)) = processedRevokes s"
  "messageCache (fst (viewOnceCapture e m a b c d f s)) = messageCache s"
  "mediaTracker (fst (viewOnceCapture e m a b c d f s)) = mediaTracker s"
  "timers (fst (viewOnceCapture e m a b c d f s)) = timers s"
  by (simp_all add: viewOnceCapture_def Let_def split: option.splits)

lemma frame_saveMessageFile [simp]:
  "readyTimestamp (snd (saveMessageFile e m a s)) = readyTimestamp s"
  "processedRevokes (snd (saveMessageFile e m a s)) = processedRevokes s"
  "messageCache (snd (saveMessageFile e m a s)) = messageCache s"
  by (simp_all add: saveMessageFile_def Let_def split_beta split: option.splits)

lemma frame_message_handler [simp]:
  "readyTimestamp (fst (message_handler e m s)) = readyTimestamp s"
  "processedRevokes (fst (message_handler e m s)) = processedRevokes s"
  by (simp_all add: message_handler_def Let_def split_beta split: option.splits)

lemma frame_message_create_handler [simp]:
  "readyTimestamp (fst (message_create_handler e m s)) = readyTimestamp s"
  "processedRevokes (fst (message_create_handler e m s)) = processedRevokes s"
  by (simp_all add: message_create_handler_def split: option.splits)

lemma frame_promoteTracked [simp]:
  "readyTimestamp (fst (snd (snd (promoteTracked e t s)))) = readyTimestamp s"
  "processedRevokes (fst (snd (snd (promoteTracked e t s)))) = processedRevokes s"
  "messageCache (fst (snd (snd (promoteTracked e t s)))) = messageCache s"
  "mediaTracker (fst (snd (snd (promoteTracked e t s)))) = mediaTracker s"
  by (simp_all add: promoteTracked_def Let_def split_beta split: option.splits)

lemma frame_moveCachedMsgFile [simp]:
  "readyTimestamp (fst (moveCachedMsgFile e c s)) = readyTimestamp s"
  "processedRevokes (fst (moveCachedMsgFile e c s)) = processedRevokes s"
  "messageCache (fst (moveCachedMsgFile e c s)) = messageCache s"
  "mediaTracker (fst (moveCachedMsgFile e c s)) = mediaTracker s"
  "timers (fst (moveCachedMsgFile e c s)) = timers s"
  by (simp_all add: moveCachedMsgFile_def split: option.splits)

lemma frame_saveDeletedRecord [simp]:
  "readyTimestamp (fst (saveDeletedRecord e d s)) = readyTimestamp s"
  "processedRevokes (fst (saveDeletedRecord e d s)) = processedRevokes s"
  "messageCache (fst (saveDeletedRecord e d s)) = messageCache s"
  "mediaTracker (fst (saveDeletedRecord e d s)) = mediaTracker s"
  "timers (fst (saveDeletedRecord e d s)) = timers s"
  "snd (saveDeletedRecord e d s) = [SaveDeletedRecord d]"
  by (simp_all add: saveDeletedRecord_def Let_def)

lemma frame_revoke_try [simp]:
  "readyTimestamp (fst (snd (revoke_try e a b s))) = readyTimestamp s"
  "processedRevokes (fst (snd (revoke_try e a b s))) = processedRevokes s"
  by (simp_all add: revoke_try_def Let_def split_beta split: option.splits)

lemma frame_markProcessed [simp]:
  "readyTimestamp (markProcessed e k s) = readyTimestamp s"
  "processedRevokes (markProcessed e k s) = insert k (processedRevokes s)"
  "messageCache (markProcessed e k s) = messageCache s"
  "mediaTracker (markProcessed e k s) = mediaTracker s"
  "files (markProcessed e k s) = files s"
  "timers (markProcessed e k s) =
     timers s @ [\<lparr>handle = None, due = now e + REVOKE_DEDUP_TTL_MS, action = DedupExpire k\<rparr>]"
  by (simp_all add: markProcessed_def setTimeout_def)

lemma frame_revoke_handler [simp]:
  "readyTimestamp (fst (revoke_handler e a b s)) = readyTimestamp s"
  by (simp add: revoke_handler_def Let_def split_beta split: option.splits)


lemma frame_ready_handler [simp]:
  "fst (ready_handler e s) = s"
  by (simp add: ready_handler_def)

lemma frame_ready_resumed [simp]:
  "readyTimestamp (fst (ready_resumed e s)) = now e"
  "processedRevokes (fst (ready_resumed e s)) = processedRevokes s"
  "messageCache (fst (ready_resumed e s)) = messageCache s"
  "mediaTracker (fst (ready_resumed e s)) = mediaTracker s"
  "timers (fst (ready_resumed e s)) = timers s"
  "files (fst (ready_resumed e s)) = files s"
  by (simp_all add: ready_resumed_def)

lemma readyTimestamp_step:
  "readyTimestamp (fst (step s ev)) =
     (case ev of ReadyResumed e \<Rightarrow> now e | _ \<Rightarrow> readyTimestamp s)"
  by (cases ev) (simp_all add: step_def)

lemma readyTimestamp_run:
  assumes "\<forall>e. ReadyResumed e \<notin> set evs"
  shows "readyTimestamp (run s evs) = readyTimestamp s"
  using assms
proof (induction evs arbitrary: s)
  case Nil
  then show ?case by simp
next
  case (Cons ev evs)
  from Cons.prems have "readyTimestamp (fst (step s ev)) = readyTimestamp s"
    by (cases ev) (auto simp: readyTimestamp_step)
  moreover from Cons.prems have "\<forall>e. ReadyResumed e \<notin> set evs" by auto
  ultimately show ?case using Cons.IH by simp
qed

text \<open>
  What the grace check does achieve. Once the \<open>ready\<close> handler has resumed and
  recorded the time, a revoke event that arrives less than \<open>STARTUP_GRACE_MS\<close> = 30 s
  after the recorded time, whatever other events came in between, is discarded before
  the duplicate check and the reconciliation: the handler changes nothing and makes no
  call to the outside.
\<close>

lemma revoke_after_recorded_ready_discarded:
  assumes "\<forall>e'. ReadyResumed e' \<notin> set evs"
    and "now e - now e0 < STARTUP_GRACE_MS"
  shows "step (run (fst (step s (ReadyResumed e0))) evs) (Revoke e a b) =
           (advance (now e) (run (fst (step s (ReadyResumed e0))) evs), [])"
proof -
  have "readyTimestamp (run (fst (step s (ReadyResumed e0))) evs) = now e0"
    using readyTimestamp_run [OF assms(1)] by (simp add: readyTimestamp_step)
  then show ?thesis
    using assms(2) by (simp add: step_def revoke_handler_def)
qed

lemma revoke_after_recorded_ready_discarded_sample:
  "snd (step (run (fst (step init (ReadyResumed (env_at 1700000000000))))
                [Message (env_at 1700000001000) msg1])
          (Revoke (env_at 1700000005000) after1 None)) = []"
  using revoke_after_recorded_ready_discarded [of "[Message (env_at 1700000001000) msg1]"
      "env_at 1700000005000" "env_at 1700000000000" init after1 None]
  by (simp add: env_at_def STARTUP_GRACE_MS_def)

text \<open>
  Claim C4. The claim fails on the code. \<open>readyTimestamp\<close> starts at 0 and the
  \<open>ready\<close> handler assigns it only after it has awaited its own notification, so
  from the start of the process until that assignment the check
  \<open>Date.now() - readyTimestamp < STARTUP_GRACE_MS\<close> compares the clock with the epoch
  and lets every revoke event through. In a fresh process the \<open>ready\<close> event arrives
  at 1700000000000 ms and its handler is awaiting \<open>sendPushNotification\<close>; a revoke
  event that arrives one second later, before the handler has resumed, is not
  discarded: its id enters the revoke guard, a log entry is appended, the record is
  handed to \<open>saveDeletedRecord\<close> and the notification is sent.
\<close>

theorem revoke_before_ready_recorded_processed:
  "readyTimestamp (fst (step init (Ready (env_at 1700000000000)))) = 0 \<and>
   now (env_at 1700000001000) - now (env_at 1700000000000) < STARTUP_GRACE_MS \<and>
   processedRevokes
     (fst (step (fst (step init (Ready (env_at 1700000000000))))
        (Revoke (env_at 1700000001000) after1 None))) = {refId after1} \<and>
   snd (step (fst (step init (Ready (env_at 1700000000000))))
          (Revoke (env_at 1700000001000) after1 None)) =
     [LogAppended
        (nl @ wastebasket @ '' DELETED MESSAGE'' @ nl @ ''Time: 1700000001000'' @ nl @
         ''Where: Private Chat'' @ nl @ ''Who: Unknown (Unknown)'' @ nl @
         ''Original: [Unknown - message not cached]'' @ nl @
         ''=============================='' @ nl),
      SaveDeletedRecord
        \<lparr>rec_time = ''1700000001000'', rec_where = ''Private Chat'',
          rec_senderName = ''Unknown'', rec_senderNumber = ''Unknown'',
          originalMessage = ''[Unknown - message not cached]'', sentTime = ''Unknown'',
          mediaFilename = None\<rparr>,
      PushNotification (wastebasket @ '' Deleted by Unknown'')
        (''Where: Private Chat'' @ nl @ ''Who: Unknown (Unknown)'' @ nl @ ''Sent: Unknown'' @
         nl @ ''Deleted: 1700000001000'' @ nl @ ''Message: [Unknown - message not cached]'')]"
  by (simp add: step_def init_def advance_def ready_handler_def revoke_handler_def
      STARTUP_GRACE_MS_def env_at_def after1_def setTimeout_def markProcessed_def
      revoke_try_def revokedId_def resolveFields_def chatLocationOf_def sentTimeOf_def
      saveDeletedRecord_def sendDeletedMedia_def decimal_def deletedLogEntry_def
      deletedRecord_def deletedNotification_def Let_def)

subsection \<open>Reconciliation of a revoke event\<close>

lemma reconciled_markProcessed [simp]:
  "reconciledRecord e a b (markProcessed e' k s) = reconciledRecord e a b s"
  "reconciledNotification e a b (markProcessed e' k s) = reconciledNotification e a b s"
  by (simp_all add: reconciledRecord_def reconciledNotification_def)

lemma promoteTracked_threw:
  assumes "fst (promoteTracked e t s)"
  shows "\<exists>p. renameThrows e p"
  using assms
  by (auto simp: promoteTracked_def Let_def split_beta split: option.splits if_splits)

lemma revoke_try_completes:
  assumes "\<not> appendThrows e" and "\<forall>p. \<not> renameThrows e p"
  shows "fst (revoke_try e a b s) = None"
proof -
  have "\<not> fst (promoteTracked e t s)" for t
    using promoteTracked_threw assms(2) by blast
  then show ?thesis
    using assms(1)
    by (simp add: revoke_try_def Let_def split_beta split: option.splits)
qed

lemma revoke_try_outputs:
  assumes "fst (revoke_try e a b s) = None"
  shows "SaveDeletedRecord (reconciledRecord e a b s) \<in> set (snd (snd (revoke_try e a b s))) \<and>
         reconciledNotification e a b s \<in> set (snd (snd (revoke_try e a b s)))"
  using assms
  by (simp add: revoke_try_def reconciledRecord_def reconciledNotification_def Let_def
      split_beta split: option.splits if_splits)


lemma revoke_handler_admitted:
  assumes "\<not> now e - readyTimestamp s < STARTUP_GRACE_MS" and "refId a \<notin> processedRevokes s"
  shows "revoke_handler e a b s =
     (case fst (revoke_try e a b (markProcessed e (refId a) s)) of
        None \<Rightarrow> snd (revoke_try e a b (markProcessed e (refId a) s))
      | Some err \<Rightarrow>
          (fst (snd (revoke_try e a b (markProcessed e (refId a) s))),
           snd (snd (revoke_try e a b (markProcessed e (refId a) s))) @ [fallbackNotification err]))"
  using assms
  by (simp add: revoke_handler_def split_beta split: option.splits prod.splits)

lemma chatLocationOf_known: "chatLocationOf c \<noteq> ''Unknown Chat''"
  by (simp add: chatLocationOf_def)

lemma resolveFields_cache_only:
  "resolveFields a None (Some c) =
     \<lparr>res_chatLocation = (case refChat a of Some ch \<Rightarrow> chatLocationOf ch | None \<Rightarrow> chatLocation c),
       res_senderName = senderName c, res_senderNumber = senderNumber c,
       res_originalText = body c\<rparr>"
  by (simp add: resolveFields_def chatLocationOf_known split: option.splits)


lemma after_msg1_eval:
  "after_msg1 =
     \<lparr>readyTimestamp = 0,
       messageCache =
         [(''false_911@c.us_AB12'',
           \<lparr>body = ''hello'', senderName = ''Asha'', senderNumber = ''911'',
             chatLocation = ''Private Chat'', timestamp = 1700000000,
             cachedMsgFilePath = Some ''media/temp/1700000000000_Asha_AB12.txt'',
             cachedAt = 1700000000000\<rparr>)],
       mediaTracker =
         [(''false_911@c.us_AB12'',
           \<lparr>media_of =
               Some \<lparr>filePath = ''media/temp/1700000000000_AB12.jpg'',
                 filename = ''1700000000000_AB12.jpg'', timeout = 0, mimetype = ''image/jpeg'',
                 sentTimestamp = 1700000000\<rparr>,
             transcript_of =
               Some \<lparr>msgFilePath = ''media/temp/1700000000000_Asha_AB12.txt'',
                 msgFilename = ''1700000000000_Asha_AB12.txt'', msgFileTimeout = 1\<rparr>\<rparr>)],
       processedRevokes = {},
       timers =
         [\<lparr>handle = Some 0, due = 1700244800000,
            action = MediaExpire ''media/temp/1700000000000_AB12.jpg'' ''false_911@c.us_AB12''\<rparr>,
          \<lparr>handle = Some 1, due = 1700244800000,
            action = MsgFileExpire ''media/temp/1700000000000_Asha_AB12.txt''\<rparr>,
          \<lparr>handle = None, due = 1700244800000, action = CacheExpire ''false_911@c.us_AB12''\<rparr>],
       nextTimer = 2,
       files = {''media/temp/1700000000000_Asha_AB12.txt'', ''media/temp/1700000000000_AB12.jpg''}\<rparr>"
  by (simp add: after_msg1_def step_def init_def advance_def message_handler_def msg1_def
      env_at_def senderNameOf_def bodyOrEmptyMarker_def chatLocationOf_def saveMediaToTemp_def
      base64ByteLength_def jsLength_def codeUnits_def MAX_MEDIA_SIZE_MB_def decimal_def getExtension_def
      mediaFileName_def msgFileName_def
      extension_table_def path_join_def TEMP_MEDIA_DIR_def setTimeout_kept_def
      DELETE_WINDOW_MS_def saveMessageFile_def safeName_def alnum_def cacheMessage_def
      MAX_CACHE_SIZE_def setTimeout_def MESSAGE_CACHE_TTL_MS_def Let_def)


text \<open>
  Claim C1. A revoke event without before-reference that passes the two gates, in a
  state whose cache holds a snapshot under the id of the after-reference: sender name,
  sender number and original body are the snapshot's, and the chat location is the one
  of the after-reference's chat, or the snapshot's when the chat cannot be read. The
  persisted record and the notification carry these values (the handler reaches them
  when no file move and no log append throws).
\<close>

theorem revoke_without_before_resolves_from_cache:
  assumes "\<not> now e - readyTimestamp s < STARTUP_GRACE_MS"
    and "refId a \<notin> processedRevokes s"
    and "map_of (messageCache s) (refId a) = Some c"
    and "\<not> appendThrows e"
    and "\<forall>p. \<not> renameThrows e p"
  shows "resolveFields a None (map_of (messageCache s) (refId a)) =
           \<lparr>res_chatLocation =
               (case refChat a of Some ch \<Rightarrow> chatLocationOf ch | None \<Rightarrow> chatLocation c),
             res_senderName = senderName c, res_senderNumber = senderNumber c,
             res_originalText = body c\<rparr> \<and>
         SaveDeletedRecord (reconciledRecord e a None s) \<in> set (snd (revoke_handler e a None s)) \<and>
         rec_senderName (reconciledRecord e a None s) = senderName c \<and>
         rec_senderNumber (reconciledRecord e a None s) = senderNumber c \<and>
         originalMessage (reconciledRecord e a None s) = body c \<and>
         rec_where (reconciledRecord e a None s) =
           (case refChat a of Some ch \<Rightarrow> chatLocationOf ch | None \<Rightarrow> chatLocation c) \<and>
         PushNotification (wastebasket @ '' Deleted by '' @ senderName c)
           (''Where: '' @
            (case refChat a of Some ch \<Rightarrow> chatLocationOf ch | None \<Rightarrow> chatLocation c) @ nl @
            ''Who: '' @ senderName c @ '' ('' @ senderNumber c @ '')'' @ nl @ ''Sent: '' @
            sentTimeOf e None (Some c) @ nl @ ''Deleted: '' @ ist e (now e) @ nl @
            ''Message: '' @ body c)
           \<in> set (snd (revoke_handler e a None s))"
proof -
  let ?s1 = "markProcessed e (refId a) s"
  have completes: "fst (revoke_try e a None ?s1) = None"
    by (rule revoke_try_completes [OF assms(4) assms(5)])
  have handler: "revoke_handler e a None s = snd (revoke_try e a None ?s1)"
    using revoke_handler_admitted [OF assms(1) assms(2), of None] completes by simp
  have fields: "resolveFields a None (map_of (messageCache s) (refId a)) =
           \<lparr>res_chatLocation =
               (case refChat a of Some ch \<Rightarrow> chatLocationOf ch | None \<Rightarrow> chatLocation c),
             res_senderName = senderName c, res_senderNumber = senderNumber c,
             res_originalText = body c\<rparr>"
    using assms(3) by (simp add: resolveFields_cache_only)
  have outs: "SaveDeletedRecord (reconciledRecord e a None s) \<in> set (snd (revoke_handler e a None s)) \<and>
      reconciledNotification e a None s \<in> set (snd (revoke_handler e a None s))"
    using revoke_try_outputs [OF completes] handler by simp
  have rcd: "reconciledRecord e a None s =
      deletedRecord e (resolveFields a None (map_of (messageCache s) (refId a))) None (Some c)
        (map_of (mediaTracker s) (refId a))"
    using assms(3) by (simp add: reconciledRecord_def revokedId_def)
  have ntf: "reconciledNotification e a None s =
      deletedNotification e (resolveFields a None (map_of (messageCache s) (refId a))) None (Some c)"
    using assms(3) by (simp add: reconciledNotification_def revokedId_def)
  show ?thesis
    using outs fields
    unfolding rcd ntf
    by (simp add: deletedRecord_def deletedNotification_def)
qed

theorem revoke_without_before_resolves_from_cache_witness:
  "\<not> now (env_at 1700000005000) - readyTimestamp after_msg1 < STARTUP_GRACE_MS \<and>
   refId after1 \<notin> processedRevokes after_msg1 \<and>
   map_of (messageCache after_msg1) (refId after1) =
     Some \<lparr>body = ''hello'', senderName = ''Asha'', senderNumber = ''911'',
            chatLocation = ''Private Chat'', timestamp = 1700000000,
            cachedMsgFilePath = Some ''media/temp/1700000000000_Asha_AB12.txt'',
            cachedAt = 1700000000000\<rparr> \<and>
   \<not> appendThrows (env_at 1700000005000) \<and>
   rec_senderName (reconciledRecord (env_at 1700000005000) after1 None after_msg1) = ''Asha'' \<and>
   rec_senderNumber (reconciledRecord (env_at 1700000005000) after1 None after_msg1) = ''911'' \<and>
   originalMessage (reconciledRecord (env_at 1700000005000) after1 None after_msg1) = ''hello'' \<and>
   SaveDeletedRecord (reconciledRecord (env_at 1700000005000) after1 None after_msg1)
     \<in> set (snd (revoke_handler (env_at 1700000005000) after1 None after_msg1))"
proof -
  have g: "\<not> now (env_at 1700000005000) - readyTimestamp after_msg1 < STARTUP_GRACE_MS"
    by (simp add: after_msg1_eval env_at_def STARTUP_GRACE_MS_def)
  have d: "refId after1 \<notin> processedRevokes after_msg1"
    by (simp add: after_msg1_eval)
  have c: "map_of (messageCache after_msg1) (refId after1) =
     Some \<lparr>body = ''hello'', senderName = ''Asha'', senderNumber = ''911'',
            chatLocation = ''Private Chat'', timestamp = 1700000000,
            cachedMsgFilePath = Some ''media/temp/1700000000000_Asha_AB12.txt'',
            cachedAt = 1700000000000\<rparr>"
    by (simp add: after_msg1_eval after1_def)
  have t: "\<not> appendThrows (env_at 1700000005000)"
    and r: "\<forall>p. \<not> renameThrows (env_at 1700000005000) p"
    by (simp_all add: env_at_def)
  from revoke_without_before_resolves_from_cache [OF g d c t r] g d c t
  show ?thesis by simp
qed

subsection \<open>Exceptions in the revoke handler\<close>

lemma revoke_try_error:
  assumes "fst (revoke_try e a b s) = Some err"
  shows "err = thrownMessage e"
  using assms
  by (simp add: revoke_try_def Let_def split_beta split: option.splits if_splits)

lemma promoteTracked_no_notification:
  "PushNotification title text \<notin> set (snd (snd (snd (promoteTracked e t s))))"
  by (simp add: promoteTracked_def Let_def split_beta split: option.splits)

lemma moveCachedMsgFile_no_notification:
  "PushNotification title text \<notin> set (snd (moveCachedMsgFile e c s))"
  by (simp add: moveCachedMsgFile_def split: option.splits)

lemma sendDeletedMedia_no_notification:
  "PushNotification title text \<notin> set (sendDeletedMedia tr r s)"
  by (simp add: sendDeletedMedia_def Let_def split: option.splits)

lemma deletedNotification_not_fallback:
  "deletedNotification e r b c \<noteq> fallbackNotification err"
  by (simp add: deletedNotification_def fallbackNotification_def)

lemma revoke_try_no_fallback:
  "fallbackNotification err \<notin> set (snd (snd (revoke_try e a b s)))"
proof -
  have p: "fallbackNotification err \<notin> set (snd (snd (snd (promoteTracked e t s'))))" for t s'
    by (simp add: fallbackNotification_def promoteTracked_no_notification)
  have m: "fallbackNotification err \<notin> set (snd (moveCachedMsgFile e c s'))" for c s'
    by (simp add: fallbackNotification_def moveCachedMsgFile_no_notification)
  have d: "fallbackNotification err \<notin> set (sendDeletedMedia tr r s')" for tr r s'
    by (simp add: fallbackNotification_def sendDeletedMedia_no_notification)
  have n: "fallbackNotification err \<noteq> deletedNotification e r b c" for r c
    using deletedNotification_not_fallback [of e r b c err] by simp
  have l: "fallbackNotification err \<noteq> LogAppended x"
    and r: "fallbackNotification err \<noteq> SaveDeletedRecord y" for x y
    by (simp_all add: fallbackNotification_def)
  show ?thesis
    using p m d n l r
    by (simp add: revoke_try_def Let_def split_beta split: option.splits)
qed

lemma revoke_try_append_throws:
  assumes "appendThrows e"
  shows "fst (revoke_try e a b s) = Some (thrownMessage e)"
  using assms by (simp add: revoke_try_def Let_def split_beta split: option.splits)

lemma promoteTracked_media_throws:
  assumes "media_of t = Some md" and "filePath md \<in> files s" and "renameThrows e (filePath md)"
  shows "fst (promoteTracked e t s)" and "snd (snd (snd (promoteTracked e t s))) = []"
  using assms by (simp_all add: promoteTracked_def Let_def)

lemma revoke_try_media_move_throws:
  assumes "map_of (mediaTracker s) (revokedId a b) = Some t"
    and "media_of t = Some md" and "filePath md \<in> files s" and "renameThrows e (filePath md)"
  shows "fst (revoke_try e a b s) = Some (thrownMessage e) \<and> snd (snd (revoke_try e a b s)) = []"
  using assms promoteTracked_media_throws [OF assms(2-4)]
  by (simp add: revoke_try_def Let_def split_beta)

lemma promoteTracked_transcript_throws:
  assumes "transcript_of t = Some ts" and "msgFilePath ts \<in> files s"
    and "renameThrows e (msgFilePath ts)"
    and "\<forall>md. media_of t = Some md \<longrightarrow> filePath md \<noteq> msgFilePath ts"
  shows "fst (promoteTracked e t s)"
  using assms
  by (auto simp: promoteTracked_def renameSync_def Let_def split: option.splits)

lemma revoke_try_transcript_move_throws:
  assumes "map_of (mediaTracker s) (revokedId a b) = Some t"
    and "transcript_of t = Some ts" and "msgFilePath ts \<in> files s"
    and "renameThrows e (msgFilePath ts)"
    and "\<forall>md. media_of t = Some md \<longrightarrow> filePath md \<noteq> msgFilePath ts"
  shows "fst (revoke_try e a b s) = Some (thrownMessage e)"
  using assms(1) promoteTracked_transcript_throws [OF assms(2-5)]
  by (simp add: revoke_try_def Let_def split_beta)

lemma promoteTracked_moves_succeed:
  assumes "\<forall>md. media_of t = Some md \<longrightarrow> \<not> renameThrows e (filePath md)"
    and "\<forall>ts. transcript_of t = Some ts \<longrightarrow> \<not> renameThrows e (msgFilePath ts)"
  shows "\<not> fst (promoteTracked e t s)"
  using assms
  by (auto simp: promoteTracked_def Let_def split_beta split: option.splits)

lemma revoke_try_guarded_only:
  assumes "\<not> appendThrows e"
    and "\<forall>t. map_of (mediaTracker s) (revokedId a b) = Some t \<longrightarrow>
           (\<forall>md. media_of t = Some md \<longrightarrow> \<not> renameThrows e (filePath md)) \<and>
           (\<forall>ts. transcript_of t = Some ts \<longrightarrow> \<not> renameThrows e (msgFilePath ts))"
  shows "fst (revoke_try e a b s) = None"
proof (cases "map_of (mediaTracker s) (revokedId a b)")
  case None
  with assms(1) show ?thesis
    by (simp add: revoke_try_def Let_def split_beta split: option.splits)
next
  case (Some t)
  with assms(2) have "\<not> fst (promoteTracked e t s)"
    by (intro promoteTracked_moves_succeed) simp_all
  with Some assms(1) show ?thesis
    by (simp add: revoke_try_def Let_def split_beta)
qed

text \<open>
  Claim C7, as the code has it. The fallback notification is titled
  \<open>Message Deleted\<close>, says that a message was deleted but its details could not be
  retrieved, and gives the message of the error. For a revoke event that passes the two
  gates the handler ends in one of two ways, and an exception never leaves it. Either
  an exception left the \<open>try\<close> and was caught: then the last call of the handler is
  the fallback notification. Or the reconciliation ran to its end: then the record was
  handed to \<open>saveDeletedRecord\<close>, the notification with the details was sent and no
  fallback notification was. A throwing append to the log is caught in the first way;
  so is a throwing move of the tracked media file, after which the fallback
  notification is the only call; and so is a throwing move of the tracked message
  file. The calls that are guarded on their own cannot stop the handler: when the
  append to the log does not throw and the moves of the files the tracker names for
  the message do not throw, the handler ends in the second way whatever \<open>getChat\<close>
  and \<open>getContact\<close> return, whether or not the write of the record and the calls to
  Telegram fail, and, for a message without tracker record, whether or not the move of
  its message file throws.
\<close>

theorem revoke_handler_catches:
  assumes "\<not> now e - readyTimestamp s < STARTUP_GRACE_MS"
    and "refId a \<notin> processedRevokes s"
  shows "fallbackNotification (thrownMessage e) =
           PushNotification (wastebasket @ '' Message Deleted'')
             (''A message was deleted but details could not be retrieved.'' @ nl @
              ''Error: '' @ thrownMessage e) \<and>
         ((snd (revoke_handler e a b s) \<noteq> [] \<and>
           last (snd (revoke_handler e a b s)) = fallbackNotification (thrownMessage e)) \<or>
          (SaveDeletedRecord (reconciledRecord e a b s) \<in> set (snd (revoke_handler e a b s)) \<and>
           reconciledNotification e a b s \<in> set (snd (revoke_handler e a b s)) \<and>
           fallbackNotification (thrownMessage e) \<notin> set (snd (revoke_handler e a b s)))) \<and>
         (appendThrows e \<longrightarrow>
            snd (revoke_handler e a b s) \<noteq> [] \<and>
            last (snd (revoke_handler e a b s)) = fallbackNotification (thrownMessage e)) \<and>
         (\<forall>t md. map_of (mediaTracker s) (revokedId a b) = Some t \<and> media_of t = Some md \<and>
                  filePath md \<in> files s \<and> renameThrows e (filePath md) \<longrightarrow>
            snd (revoke_handler e a b s) = [fallbackNotification (thrownMessage e)]) \<and>
         (\<forall>t ts. map_of (mediaTracker s) (revokedId a b) = Some t \<and>
                  transcript_of t = Some ts \<and> msgFilePath ts \<in> files s \<and>
                  renameThrows e (msgFilePath ts) \<and>
                  (\<forall>md. media_of t = Some md \<longrightarrow> filePath md \<noteq> msgFilePath ts) \<longrightarrow>
            snd (revoke_handler e a b s) \<noteq> [] \<and>
            last (snd (revoke_handler e a b s)) = fallbackNotification (thrownMessage e)) \<and>
         (\<not> appendThrows e \<and>
          (\<forall>t. map_of (mediaTracker s) (revokedId a b) = Some t \<longrightarrow>
             (\<forall>md. media_of t = Some md \<longrightarrow> \<not> renameThrows e (filePath md)) \<and>
             (\<forall>ts. transcript_of t = Some ts \<longrightarrow> \<not> renameThrows e (msgFilePath ts))) \<longrightarrow>
            SaveDeletedRecord (reconciledRecord e a b s) \<in> set (snd (revoke_handler e a b s)) \<and>
            reconciledNotification e a b s \<in> set (snd (revoke_handler e a b s)) \<and>
            fallbackNotification (thrownMessage e) \<notin> set (snd (revoke_handler e a b s)))"
proof -
  let ?s1 = "markProcessed e (refId a) s"
  let ?t = "revoke_try e a b ?s1"
  let ?fx = "snd (revoke_handler e a b s)"
  let ?fb = "fallbackNotification (thrownMessage e)"
  have content: "?fb =
      PushNotification (wastebasket @ '' Message Deleted'')
        (''A message was deleted but details could not be retrieved.'' @ nl @
         ''Error: '' @ thrownMessage e)"
    by (simp add: fallbackNotification_def)
  note h = revoke_handler_admitted [OF assms, of b]
  have caught: "?fx = snd (snd ?t) @ [?fb]" if "fst ?t = Some err" for err
    using h that revoke_try_error [OF that] by simp
  have ended: "SaveDeletedRecord (reconciledRecord e a b s) \<in> set ?fx \<and>
      reconciledNotification e a b s \<in> set ?fx \<and> ?fb \<notin> set ?fx" if "fst ?t = None"
  proof -
    from h that have "?fx = snd (snd ?t)" by simp
    with revoke_try_outputs [OF that] revoke_try_no_fallback [of "thrownMessage e" e a b ?s1]
    show ?thesis by simp
  qed
  have two: "(?fx \<noteq> [] \<and> last ?fx = ?fb) \<or>
      (SaveDeletedRecord (reconciledRecord e a b s) \<in> set ?fx \<and>
       reconciledNotification e a b s \<in> set ?fx \<and> ?fb \<notin> set ?fx)"
  proof (cases "fst ?t")
    case None
    with ended show ?thesis by blast
  next
    case (Some err)
    with caught show ?thesis by simp
  qed
  have append: "?fx \<noteq> [] \<and> last ?fx = ?fb" if "appendThrows e"
    using caught [OF revoke_try_append_throws [OF that]] by simp
  have media_move: "?fx = [?fb]"
    if "map_of (mediaTracker s) (revokedId a b) = Some t \<and> media_of t = Some md \<and>
        filePath md \<in> files s \<and> renameThrows e (filePath md)" for t md
  proof -
    from that have "fst ?t = Some (thrownMessage e) \<and> snd (snd ?t) = []"
      by (intro revoke_try_media_move_throws [of ?s1 a b t md e]) simp_all
    with caught show ?thesis by simp
  qed
  have transcript_move: "?fx \<noteq> [] \<and> last ?fx = ?fb"
    if "map_of (mediaTracker s) (revokedId a b) = Some t \<and>
        transcript_of t = Some ts \<and> msgFilePath ts \<in> files s \<and>
        renameThrows e (msgFilePath ts) \<and>
        (\<forall>md. media_of t = Some md \<longrightarrow> filePath md \<noteq> msgFilePath ts)" for t ts
  proof -
    from that have "fst ?t = Some (thrownMessage e)"
      by (intro revoke_try_transcript_move_throws [of ?s1 a b t ts e]) simp_all
    from caught [OF this] show ?thesis by simp
  qed
  have guarded: "SaveDeletedRecord (reconciledRecord e a b s) \<in> set ?fx \<and>
      reconciledNotification e a b s \<in> set ?fx \<and> ?fb \<notin> set ?fx"
    if "\<not> appendThrows e \<and>
        (\<forall>t. map_of (mediaTracker s) (revokedId a b) = Some t \<longrightarrow>
           (\<forall>md. media_of t = Some md \<longrightarrow> \<not> renameThrows e (filePath md)) \<and>
           (\<forall>ts. transcript_of t = Some ts \<longrightarrow> \<not> renameThrows e (msgFilePath ts)))"
  proof -
    from that have "fst ?t = None"
      by (intro revoke_try_guarded_only) simp_all
    then show ?thesis by (rule ended)
  qed
  from content two append media_move transcript_move guarded show ?thesis by blast
qed

lemma append_fails_eval:
  "snd (revoke_handler (env_append_fails 1700000005000) after1 None after_msg1) =
     [Renamed ''media/temp/1700000000000_AB12.jpg'' ''media/saved/1700000000000_AB12.jpg'',
      Renamed ''media/temp/1700000000000_Asha_AB12.txt''
        ''media/saved/1700000000000_Asha_AB12.txt'',
      PushNotification (wastebasket @ '' Message Deleted'')
        (''A message was deleted but details could not be retrieved.'' @ nl @
         ''Error: ENOSPC: no space left on device'')]"
  by (simp add: after_msg1_eval revoke_handler_def STARTUP_GRACE_MS_def fallbackNotification_def
      revoke_try_def markProcessed_def setTimeout_def after1_def
      env_append_fails_def env_at_def revokedId_def promoteTracked_def clearTimeout_def
      renameSync_def path_join_def SAVED_MEDIA_DIR_def Let_def)

lemma guarded_fail_record_eval:
  "reconciledRecord (env_guarded_fail 1700000005000) (after1\<lparr>refChat := None\<rparr>) None after_msg1 =
     \<lparr>rec_time = ''1700000005000'', rec_where = ''Private Chat'', rec_senderName = ''Asha'',
       rec_senderNumber = ''911'', originalMessage = ''hello'', sentTime = ''1700000000000'',
       mediaFilename = Some ''1700000000000_AB12.jpg''\<rparr>"
  by (simp add: after_msg1_eval reconciledRecord_def deletedRecord_def resolveFields_def
      revokedId_def after1_def env_guarded_fail_def env_at_def sentTimeOf_def decimal_def Let_def)

lemma guarded_fail_notification_eval:
  "reconciledNotification (env_guarded_fail 1700000005000) (after1\<lparr>refChat := None\<rparr>) None
     after_msg1 =
     PushNotification (wastebasket @ '' Deleted by Asha'')
       (''Where: Private Chat'' @ nl @ ''Who: Asha (911)'' @ nl @ ''Sent: 1700000000000'' @ nl @
        ''Deleted: 1700000005000'' @ nl @ ''Message: hello'')"
  by (simp add: after_msg1_eval reconciledNotification_def deletedNotification_def
      resolveFields_def revokedId_def after1_def env_guarded_fail_def env_at_def sentTimeOf_def
      decimal_def Let_def)

theorem log_append_failure_skips_record_counterexample:
  "\<not> now (env_append_fails 1700000005000) - readyTimestamp after_msg1 < STARTUP_GRACE_MS \<and>
   refId after1 \<notin> processedRevokes after_msg1 \<and>
   appendThrows (env_append_fails 1700000005000) \<and>
   \<not> writeThrows (env_append_fails 1700000005000)
       ''media/saved/deleted_1700000005000_Asha.json'' \<and>
   snd (revoke_handler (env_append_fails 1700000005000) after1 None after_msg1) =
     [Renamed ''media/temp/1700000000000_AB12.jpg'' ''media/saved/1700000000000_AB12.jpg'',
      Renamed ''media/temp/1700000000000_Asha_AB12.txt''
        ''media/saved/1700000000000_Asha_AB12.txt'',
      PushNotification (wastebasket @ '' Message Deleted'')
        (''A message was deleted but details could not be retrieved.'' @ nl @
         ''Error: ENOSPC: no space left on device'')]"
  using append_fails_eval
  by (simp add: after_msg1_eval env_append_fails_def env_at_def STARTUP_GRACE_MS_def)

theorem revoke_handler_catches_witness:
  "\<not> now (env_append_fails 1700000005000) - readyTimestamp after_msg1 < STARTUP_GRACE_MS \<and>
   refId after1 \<notin> processedRevokes after_msg1 \<and>
   appendThrows (env_append_fails 1700000005000) \<and>
   last (snd (revoke_handler (env_append_fails 1700000005000) after1 None after_msg1)) =
     PushNotification (wastebasket @ '' Message Deleted'')
       (''A message was deleted but details could not be retrieved.'' @ nl @
        ''Error: ENOSPC: no space left on device'') \<and>
   renameThrows (env_move_fails 1700000005000) ''media/temp/1700000000000_AB12.jpg'' \<and>
   snd (revoke_handler (env_move_fails 1700000005000) after1 None after_msg1) =
     [PushNotification (wastebasket @ '' Message Deleted'')
        (''A message was deleted but details could not be retrieved.'' @ nl @
         ''Error: EACCES: permission denied'')] \<and>
   writeThrows (env_guarded_fail 1700000005000) ''media/saved/deleted_1700000005000_Asha.json'' \<and>
   telegramFails (env_guarded_fail 1700000005000) \<and>
   refChat (after1\<lparr>refChat := None\<rparr>) = None \<and>
   SaveDeletedRecord
     \<lparr>rec_time = ''1700000005000'', rec_where = ''Private Chat'', rec_senderName = ''Asha'',
       rec_senderNumber = ''911'', originalMessage = ''hello'', sentTime = ''1700000000000'',
       mediaFilename = Some ''1700000000000_AB12.jpg''\<rparr>
     \<in> set (snd (revoke_handler (env_guarded_fail 1700000005000) (after1\<lparr>refChat := None\<rparr>)
                None after_msg1)) \<and>
   PushNotification (wastebasket @ '' Deleted by Asha'')
       (''Where: Private Chat'' @ nl @ ''Who: Asha (911)'' @ nl @ ''Sent: 1700000000000'' @ nl @
        ''Deleted: 1700000005000'' @ nl @ ''Message: hello'')
     \<in> set (snd (revoke_handler (env_guarded_fail 1700000005000) (after1\<lparr>refChat := None\<rparr>)
                None after_msg1))"
proof -
  let ?ea = "env_append_fails 1700000005000"
  let ?em = "env_move_fails 1700000005000"
  let ?eg = "env_guarded_fail 1700000005000"
  let ?a = "after1\<lparr>refChat := None\<rparr>"
  have ga: "\<not> now ?ea - readyTimestamp after_msg1 < STARTUP_GRACE_MS"
    and gm: "\<not> now ?em - readyTimestamp after_msg1 < STARTUP_GRACE_MS"
    and gg: "\<not> now ?eg - readyTimestamp after_msg1 < STARTUP_GRACE_MS"
    by (simp_all add: after_msg1_eval env_append_fails_def env_move_fails_def
        env_guarded_fail_def env_at_def STARTUP_GRACE_MS_def)
  have d: "refId after1 \<notin> processedRevokes after_msg1"
    and d': "refId ?a \<notin> processedRevokes after_msg1"
    by (simp_all add: after_msg1_eval)
  have appends: "appendThrows ?ea"
    and err_a: "thrownMessage ?ea = ''ENOSPC: no space left on device''"
    by (simp_all add: env_append_fails_def env_at_def)
  have moves: "renameThrows ?em ''media/temp/1700000000000_AB12.jpg''"
    and err_m: "thrownMessage ?em = ''EACCES: permission denied''"
    by (simp_all add: env_move_fails_def env_at_def)
  have tracked: "map_of (mediaTracker after_msg1) (revokedId after1 None) =
        Some \<lparr>media_of =
               Some \<lparr>filePath = ''media/temp/1700000000000_AB12.jpg'',
                 filename = ''1700000000000_AB12.jpg'', timeout = 0, mimetype = ''image/jpeg'',
                 sentTimestamp = 1700000000\<rparr>,
             transcript_of =
               Some \<lparr>msgFilePath = ''media/temp/1700000000000_Asha_AB12.txt'',
                 msgFilename = ''1700000000000_Asha_AB12.txt'', msgFileTimeout = 1\<rparr>\<rparr>"
    and present: "''media/temp/1700000000000_AB12.jpg'' \<in> files after_msg1"
    by (simp_all add: after_msg1_eval revokedId_def after1_def)
  have guarded: "\<not> appendThrows ?eg" "\<And>p. \<not> renameThrows ?eg p"
    and fails: "writeThrows ?eg ''media/saved/deleted_1700000005000_Asha.json'' \<and>
      telegramFails ?eg"
    by (simp_all add: env_guarded_fail_def env_at_def)
  have first: "last (snd (revoke_handler ?ea after1 None after_msg1)) =
      PushNotification (wastebasket @ '' Message Deleted'')
        (''A message was deleted but details could not be retrieved.'' @ nl @
         ''Error: ENOSPC: no space left on device'')"
    using revoke_handler_catches [OF ga d, of None] appends
    by (simp add: err_a fallbackNotification_def)
  have second: "snd (revoke_handler ?em after1 None after_msg1) =
      [PushNotification (wastebasket @ '' Message Deleted'')
         (''A message was deleted but details could not be retrieved.'' @ nl @
          ''Error: EACCES: permission denied'')]"
  proof -
    have "\<forall>t md. map_of (mediaTracker after_msg1) (revokedId after1 None) = Some t \<and>
        media_of t = Some md \<and> filePath md \<in> files after_msg1 \<and>
        renameThrows ?em (filePath md) \<longrightarrow>
        snd (revoke_handler ?em after1 None after_msg1) =
          [fallbackNotification (thrownMessage ?em)]"
      using revoke_handler_catches [OF gm d, of None] by blast
    from this [rule_format, OF conjI [OF tracked]] present moves show ?thesis
      by (simp add: err_m fallbackNotification_def)
  qed
  have third: "SaveDeletedRecord (reconciledRecord ?eg ?a None after_msg1)
        \<in> set (snd (revoke_handler ?eg ?a None after_msg1)) \<and>
      reconciledNotification ?eg ?a None after_msg1
        \<in> set (snd (revoke_handler ?eg ?a None after_msg1))"
    using revoke_handler_catches [OF gg d', of None] guarded by blast
  from ga d appends first moves second fails third show ?thesis
    by (simp add: guarded_fail_record_eval guarded_fail_notification_eval)
qed

subsection \<open>The marker for an empty body\<close>

lemma bodyOrEmptyMarker_nonempty [simp]: "bodyOrEmptyMarker b \<noteq> []"
  by (simp add: bodyOrEmptyMarker_def)

































subsection \<open>The two groups of fields of a tracker record\<close>






lemma media_saved_eval:
  "saveMediaToTemp (env_at 1700000000000) msg1 init =
     (Some ''1700000000000_AB12.jpg'',
      \<lparr>readyTimestamp = 0, messageCache = [],
        mediaTracker =
          [(''false_911@c.us_AB12'',
            \<lparr>media_of =
                Some \<lparr>filePath = ''media/temp/1700000000000_AB12.jpg'',
                  filename = ''1700000000000_AB12.jpg'', timeout = 0, mimetype = ''image/jpeg'',
                  sentTimestamp = 1700000000\<rparr>,
              transcript_of = None\<rparr>)],
        processedRevokes = {},
        timers =
          [\<lparr>handle = Some 0, due = 1700244800000,
             action = MediaExpire ''media/temp/1700000000000_AB12.jpg'' ''false_911@c.us_AB12''\<rparr>],
        nextTimer = 1, files = {''media/temp/1700000000000_AB12.jpg''}\<rparr>)"
  by (simp add: init_def msg1_def env_at_def saveMediaToTemp_def base64ByteLength_def jsLength_def codeUnits_def
      MAX_MEDIA_SIZE_MB_def decimal_def getExtension_def mediaFileName_def extension_table_def
      path_join_def TEMP_MEDIA_DIR_def setTimeout_kept_def DELETE_WINDOW_MS_def Let_def)

lemma msgId_msg1: "msgId msg1 = ''false_911@c.us_AB12''"
  by (simp add: msg1_def)




subsection \<open>The view-once block\<close>

lemma viewOnceCapture_files:
  "files (fst (viewOnceCapture e m sender num loc time mb s)) =
     (case map_of (mediaTracker s) (msgId m) of
        None \<Rightarrow> files s
      | Some t \<Rightarrow>
          (case media_of t of
             None \<Rightarrow> files s
           | Some md \<Rightarrow>
               if filePath md \<in> files s \<and> \<not> copyThrows e (filePath md)
               then insert (path_join SAVED_MEDIA_DIR (filename md)) (files s)
               else files s))"
  by (simp add: viewOnceCapture_def Let_def split: option.splits)

lemma viewOnceCapture_copied:
  assumes "map_of (mediaTracker s) (msgId m) = Some t" and "media_of t = Some md"
    and "filePath md \<in> files s" and "\<not> copyThrows e (filePath md)"
  shows "Copied (filePath md) (path_join SAVED_MEDIA_DIR (filename md))
           \<in> set (snd (viewOnceCapture e m sender num loc time mb s))"
  using assms by (simp add: viewOnceCapture_def Let_def)

lemma viewOnceCapture_never_moves:
  "Renamed p q \<notin> set (snd (viewOnceCapture e m sender num loc time mb s))"
  by (simp add: viewOnceCapture_def Let_def split: option.splits)

text \<open>
  Claim C8, as the code has it. The view-once block copies the tracked media file to
  the saved directory when the file exists (the temporary file stays, nothing is moved)
  and leaves the tracker and the timers exactly as they are: the media fields stay in
  the record together with their expiry timer, and no field of the record is cleared.
\<close>

theorem view_once_copies_and_keeps_tracker:
  "mediaTracker (fst (viewOnceCapture e m sender num loc time mb s)) = mediaTracker s \<and>
   timers (fst (viewOnceCapture e m sender num loc time mb s)) = timers s \<and>
   files s \<subseteq> files (fst (viewOnceCapture e m sender num loc time mb s)) \<and>
   Renamed p q \<notin> set (snd (viewOnceCapture e m sender num loc time mb s)) \<and>
   (map_of (mediaTracker s) (msgId m) = Some t \<and> media_of t = Some md \<and>
    filePath md \<in> files s \<and> \<not> copyThrows e (filePath md) \<longrightarrow>
      files (fst (viewOnceCapture e m sender num loc time mb s)) =
        insert (path_join SAVED_MEDIA_DIR (filename md)) (files s) \<and>
      Copied (filePath md) (path_join SAVED_MEDIA_DIR (filename md))
        \<in> set (snd (viewOnceCapture e m sender num loc time mb s)))"
proof -
  have sub: "files s \<subseteq> files (fst (viewOnceCapture e m sender num loc time mb s))"
    by (auto simp: viewOnceCapture_files split: option.splits)
  have copy: "files (fst (viewOnceCapture e m sender num loc time mb s)) =
        insert (path_join SAVED_MEDIA_DIR (filename md)) (files s) \<and>
      Copied (filePath md) (path_join SAVED_MEDIA_DIR (filename md))
        \<in> set (snd (viewOnceCapture e m sender num loc time mb s))"
    if "map_of (mediaTracker s) (msgId m) = Some t" "media_of t = Some md"
      "filePath md \<in> files s" "\<not> copyThrows e (filePath md)"
    using that viewOnceCapture_copied [OF that] by (simp add: viewOnceCapture_files)
  from sub copy viewOnceCapture_never_moves [of p q e m sender num loc time mb s]
  show ?thesis by simp
qed

lemma after_view_once_eval:
  "run init [Message (env_at 1700000000000) msg1_view_once] = after_msg1\<lparr>files :=
     {''media/temp/1700000000000_Asha_AB12.txt'', ''media/saved/1700000000000_AB12.jpg'',
      ''media/temp/1700000000000_AB12.jpg''}\<rparr>"
  unfolding after_msg1_eval
  by (simp add: step_def init_def advance_def message_handler_def msg1_view_once_def msg1_def
      env_at_def senderNameOf_def bodyOrEmptyMarker_def chatLocationOf_def saveMediaToTemp_def
      base64ByteLength_def jsLength_def codeUnits_def MAX_MEDIA_SIZE_MB_def decimal_def getExtension_def
      mediaFileName_def msgFileName_def viewOnceCapture_def SAVED_MEDIA_DIR_def
      extension_table_def path_join_def TEMP_MEDIA_DIR_def setTimeout_kept_def
      DELETE_WINDOW_MS_def saveMessageFile_def safeName_def alnum_def cacheMessage_def
      MAX_CACHE_SIZE_def setTimeout_def MESSAGE_CACHE_TTL_MS_def Let_def insert_commute)

text \<open>
  After the sample view-once message has been handled, its tracker record still holds
  the media fields, and the expiry timer of the media file is still pending.
\<close>

theorem view_once_keeps_media_fields_counterexample:
  "map_option media_of
     (map_of (mediaTracker (run init [Message (env_at 1700000000000) msg1_view_once]))
        ''false_911@c.us_AB12'') =
     Some (Some \<lparr>filePath = ''media/temp/1700000000000_AB12.jpg'',
                 filename = ''1700000000000_AB12.jpg'', timeout = 0, mimetype = ''image/jpeg'',
                 sentTimestamp = 1700000000\<rparr>) \<and>
   \<lparr>handle = Some 0, due = 1700244800000,
     action = MediaExpire ''media/temp/1700000000000_AB12.jpg'' ''false_911@c.us_AB12''\<rparr>
     \<in> set (timers (run init [Message (env_at 1700000000000) msg1_view_once])) \<and>
   ''media/temp/1700000000000_AB12.jpg''
     \<in> files (run init [Message (env_at 1700000000000) msg1_view_once]) \<and>
   ''media/saved/1700000000000_AB12.jpg''
     \<in> files (run init [Message (env_at 1700000000000) msg1_view_once])"
  by (subst after_view_once_eval)+ (simp add: after_msg1_eval)


theorem view_once_copies_and_keeps_tracker_witness:
  "map_of (mediaTracker (snd (saveMediaToTemp (env_at 1700000000000) msg1 init))) (msgId msg1) =
     Some \<lparr>media_of =
              Some \<lparr>filePath = ''media/temp/1700000000000_AB12.jpg'',
                filename = ''1700000000000_AB12.jpg'', timeout = 0, mimetype = ''image/jpeg'',
                sentTimestamp = 1700000000\<rparr>,
            transcript_of = None\<rparr> \<and>
   ''media/temp/1700000000000_AB12.jpg''
     \<in> files (snd (saveMediaToTemp (env_at 1700000000000) msg1 init)) \<and>
   \<not> copyThrows (env_at 1700000000000) ''media/temp/1700000000000_AB12.jpg'' \<and>
   files (fst (viewOnceCapture (env_at 1700000000000) msg1 ''Asha'' ''911'' ''Private Chat''
       ''1700000000000'' ''hello'' (snd (saveMediaToTemp (env_at 1700000000000) msg1 init)))) =
     {''media/saved/1700000000000_AB12.jpg'', ''media/temp/1700000000000_AB12.jpg''} \<and>
   mediaTracker (fst (viewOnceCapture (env_at 1700000000000) msg1 ''Asha'' ''911''
       ''Private Chat'' ''1700000000000'' ''hello''
       (snd (saveMediaToTemp (env_at 1700000000000) msg1 init)))) =
     mediaTracker (snd (saveMediaToTemp (env_at 1700000000000) msg1 init))"
proof -
  let ?e = "env_at 1700000000000"
  let ?s = "snd (saveMediaToTemp ?e msg1 init)"
  let ?md = "\<lparr>filePath = ''media/temp/1700000000000_AB12.jpg'',
                filename = ''1700000000000_AB12.jpg'', timeout = 0, mimetype = ''image/jpeg'',
                sentTimestamp = 1700000000\<rparr>"
  let ?t = "\<lparr>media_of = Some ?md, transcript_of = None\<rparr>"
  have t: "map_of (mediaTracker ?s) (msgId msg1) = Some ?t"
    by (simp add: media_saved_eval msgId_msg1)
  have f: "filePath ?md \<in> files ?s"
    by (simp add: media_saved_eval)
  have c: "\<not> copyThrows ?e (filePath ?md)"
    by (simp add: env_at_def)
  have fs: "files ?s = {''media/temp/1700000000000_AB12.jpg''}"
    by (simp add: media_saved_eval)
  from view_once_copies_and_keeps_tracker [of ?e msg1 "''Asha''" "''911''" "''Private Chat''"
      "''1700000000000''" "''hello''" ?s "[]" "[]" ?t ?md] t f c
  have "files (fst (viewOnceCapture ?e msg1 ''Asha'' ''911'' ''Private Chat''
          ''1700000000000'' ''hello'' ?s)) =
        insert (path_join SAVED_MEDIA_DIR (filename ?md)) (files ?s) \<and>
      mediaTracker (fst (viewOnceCapture ?e msg1 ''Asha'' ''911'' ''Private Chat''
          ''1700000000000'' ''hello'' ?s)) = mediaTracker ?s"
    by simp
  then show ?thesis
    using t f c unfolding fs
    by (simp add: path_join_def SAVED_MEDIA_DIR_def)
qed

subsection \<open>Promotion twice and missing files\<close>












subsection \<open>The revoke guard\<close>

lemma dedup_inv_iff:
  "dedup_inv s \<longleftrightarrow>
     (\<forall>tm \<in> set (timers s). \<forall>k. action tm = DedupExpire k \<longrightarrow>
        k \<in> processedRevokes s \<and>
        (\<forall>tm' \<in> set (timers s). action tm' = DedupExpire k \<longrightarrow> due tm' = due tm))"
  by (auto simp: dedup_inv_def list_all_iff split: action.splits)

lemma dedup_invD:
  assumes "dedup_inv s" and "tm \<in> set (timers s)" and "action tm = DedupExpire k"
  shows "k \<in> processedRevokes s"
    and "\<forall>tm' \<in> set (timers s). action tm' = DedupExpire k \<longrightarrow> due tm' = due tm"
  using assms unfolding dedup_inv_iff by blast+

lemma dedup_inv_init: "dedup_inv init"
  by (simp add: dedup_inv_def init_def)

lemma dedup_inv_advance:
  assumes "dedup_inv s"
  shows "dedup_inv (advance t s)"
  unfolding dedup_inv_iff
proof (intro ballI allI impI)
  fix tm k
  assume tm: "tm \<in> set (timers (advance t s))" and k: "action tm = DedupExpire k"
  from tm have pending: "tm \<in> set (timers s)" and later: "\<not> due tm \<le> t"
    by (simp_all add: timers_advance)
  have inP: "k \<in> processedRevokes s"
    and same: "\<forall>tm' \<in> set (timers s). action tm' = DedupExpire k \<longrightarrow> due tm' = due tm"
    by (rule dedup_invD [OF assms pending k])+
  have "DedupExpire k \<notin> action ` {tm \<in> set (timers s). due tm \<le> t}"
  proof
    assume "DedupExpire k \<in> action ` {tm \<in> set (timers s). due tm \<le> t}"
    then obtain tm' where "tm' \<in> set (timers s)" "due tm' \<le> t" "action tm' = DedupExpire k"
      by force
    with same later show False by auto
  qed
  with inP have "k \<in> processedRevokes (advance t s)"
    by (simp add: processedRevokes_advance)
  moreover have "\<forall>tm' \<in> set (timers (advance t s)). action tm' = DedupExpire k \<longrightarrow> due tm' = due tm"
    using same by (simp add: timers_advance)
  ultimately show "k \<in> processedRevokes (advance t s) \<and>
      (\<forall>tm' \<in> set (timers (advance t s)). action tm' = DedupExpire k \<longrightarrow> due tm' = due tm)"
    by blast
qed

lemma timers_saveMediaToTemp:
  "timers (snd (saveMediaToTemp e m s)) =
     (case fst (saveMediaToTemp e m s) of
        None \<Rightarrow> timers s
      | Some fname \<Rightarrow>
          timers s @ [\<lparr>handle = Some (nextTimer s), due = now e + DELETE_WINDOW_MS,
                       action = MediaExpire (path_join TEMP_MEDIA_DIR fname) (msgId m)\<rparr>])"
  by (simp add: saveMediaToTemp_def Let_def split_beta split: option.splits)

lemma timers_saveMessageFile:
  "timers (snd (saveMessageFile e m sender s)) =
     (if writeThrows e (path_join TEMP_MEDIA_DIR (msgFileName e m sender)) then timers s
      else timers s @ [\<lparr>handle = Some (nextTimer s), due = now e + DELETE_WINDOW_MS,
                         action = MsgFileExpire (path_join TEMP_MEDIA_DIR (msgFileName e m sender))\<rparr>])"
  by (simp add: saveMessageFile_def Let_def split_beta)

lemma other_timer_iff: "other_timer tm \<longleftrightarrow> (\<forall>k. action tm \<noteq> DedupExpire k)"
  by (auto simp: other_timer_def split: action.splits)


lemma timers_message_handler:
  "\<exists>extra. timers (fst (message_handler e m s)) = timers s @ extra \<and> list_all other_timer extra"
proof -
  have a: "\<exists>extra. timers (snd (saveMediaToTemp e m s')) = timers s' @ extra \<and>
      list_all other_timer extra" for s'
    by (cases "fst (saveMediaToTemp e m s')") (simp_all add: timers_saveMediaToTemp other_timer_def)
  have b: "\<exists>extra. timers (snd (saveMessageFile e m sender s')) = timers s' @ extra \<and>
      list_all other_timer extra" for s' sender
    by (simp add: timers_saveMessageFile other_timer_def)
  have c: "\<exists>extra. timers (cacheMessage e k d s') = timers s' @ extra \<and>
      list_all other_timer extra" for s' k d
    by (simp add: timers_cacheMessage other_timer_def)
  show ?thesis
  proof (cases "msgChat m")
    case None
    then show ?thesis by (simp add: message_handler_def)
  next
    case (Some ch)
    show ?thesis
    proof (cases "msgContact m")
      case None
      with Some show ?thesis by (simp add: message_handler_def)
    next
      case (Some ct)
      let ?s1 = "if hasMedia m then snd (saveMediaToTemp e m s) else s"
      obtain x1 where x1: "timers ?s1 = timers s @ x1" "list_all other_timer x1"
        using a [of s] by (cases "hasMedia m") auto
      let ?s2 = "if isViewOnce m \<and> hasMedia m
        then fst (viewOnceCapture e m (senderNameOf ct) (number ct) (chatLocationOf ch)
              (ist e (now e)) (bodyOrEmptyMarker (msgBody m)) ?s1) else ?s1"
      have s2: "timers ?s2 = timers ?s1" by simp
      let ?s3 = "snd (saveMessageFile e m (senderNameOf ct) ?s2)"
      obtain x3 where x3: "timers ?s3 = timers ?s2 @ x3" "list_all other_timer x3"
        using b [of "senderNameOf ct" ?s2] by blast
      show ?thesis
      proof (cases "appendThrows e")
        case True
        then have "timers (fst (message_handler e m s)) = timers ?s2"
          using \<open>msgChat m = Some ch\<close> Some
          by (simp add: message_handler_def Let_def split_beta)
        with s2 x1 show ?thesis by auto
      next
        case False
        then have "timers (fst (message_handler e m s)) =
            timers ?s3 @ [\<lparr>handle = None, due = now e + MESSAGE_CACHE_TTL_MS,
                            action = CacheExpire (msgId m)\<rparr>]"
          using \<open>msgChat m = Some ch\<close> Some
          by (simp add: message_handler_def Let_def split_beta timers_cacheMessage)
        then have "timers (fst (message_handler e m s)) =
            timers s @ (x1 @ x3 @ [\<lparr>handle = None, due = now e + MESSAGE_CACHE_TTL_MS,
                            action = CacheExpire (msgId m)\<rparr>])"
          using x3(1) s2 x1(1) by simp
        moreover have "list_all other_timer (x1 @ x3 @
            [\<lparr>handle = None, due = now e + MESSAGE_CACHE_TTL_MS, action = CacheExpire (msgId m)\<rparr>])"
          using x1(2) x3(2) by (simp add: other_timer_def)
        ultimately show ?thesis by blast
      qed
    qed
  qed
qed

lemma timers_message_create_handler:
  "\<exists>extra. timers (fst (message_create_handler e m s)) = timers s @ extra \<and>
     list_all other_timer extra"
  by (auto simp: message_create_handler_def timers_cacheMessage other_timer_def
      split: option.splits)


lemma dedup_invI:
  assumes "\<And>tm k. tm \<in> set (timers s) \<Longrightarrow> action tm = DedupExpire k \<Longrightarrow>
      k \<in> processedRevokes s \<and>
      (\<forall>tm' \<in> set (timers s). action tm' = DedupExpire k \<longrightarrow> due tm' = due tm)"
  shows "dedup_inv s"
  unfolding dedup_inv_iff using assms by blast

lemma dedup_inv_subset:
  assumes "dedup_inv s" and "set (timers s') \<subseteq> set (timers s)"
    and "processedRevokes s \<subseteq> processedRevokes s'"
  shows "dedup_inv s'"
proof (rule dedup_invI)
  fix tm k
  assume tm: "tm \<in> set (timers s')" and k: "action tm = DedupExpire k"
  from tm assms(2) have old: "tm \<in> set (timers s)" by blast
  note d = dedup_invD [OF assms(1) old k]
  from d(1) assms(3) have "k \<in> processedRevokes s'" by blast
  moreover from d(2) assms(2)
  have "\<forall>tm' \<in> set (timers s'). action tm' = DedupExpire k \<longrightarrow> due tm' = due tm" by blast
  ultimately show "k \<in> processedRevokes s' \<and>
      (\<forall>tm' \<in> set (timers s'). action tm' = DedupExpire k \<longrightarrow> due tm' = due tm)"
    by blast
qed

lemma dedup_inv_append_other:
  assumes "dedup_inv s" and "timers s' = timers s @ extra" and "list_all other_timer extra"
    and "processedRevokes s' = processedRevokes s"
  shows "dedup_inv s'"
proof (rule dedup_invI)
  fix tm k
  assume tm: "tm \<in> set (timers s')" and k: "action tm = DedupExpire k"
  have no: "tm' \<in> set extra \<Longrightarrow> action tm' \<noteq> DedupExpire k" for tm'
    using assms(3) by (auto simp: list_all_iff other_timer_iff)
  from tm assms(2) no k have old: "tm \<in> set (timers s)" by auto
  note d = dedup_invD [OF assms(1) old k]
  have "\<forall>tm' \<in> set (timers s'). action tm' = DedupExpire k \<longrightarrow> due tm' = due tm"
    using d(2) no assms(2) by auto
  with d(1) assms(4) show "k \<in> processedRevokes s' \<and>
      (\<forall>tm' \<in> set (timers s'). action tm' = DedupExpire k \<longrightarrow> due tm' = due tm)"
    by simp
qed

lemma dedup_inv_markProcessed:
  assumes "dedup_inv s" and "k \<notin> processedRevokes s"
  shows "dedup_inv (markProcessed e k s)"
proof (rule dedup_invI)
  fix tm k'
  let ?new = "\<lparr>handle = None, due = now e + REVOKE_DEDUP_TTL_MS, action = DedupExpire k\<rparr>"
  assume tm: "tm \<in> set (timers (markProcessed e k s))" and k': "action tm = DedupExpire k'"
  have none: "tm' \<in> set (timers s) \<Longrightarrow> action tm' \<noteq> DedupExpire k" for tm'
    using dedup_invD(1) [OF assms(1)] assms(2) by blast
  from tm have "tm \<in> set (timers s) \<or> tm = ?new" by auto
  then show "k' \<in> processedRevokes (markProcessed e k s) \<and>
      (\<forall>tm' \<in> set (timers (markProcessed e k s)).
         action tm' = DedupExpire k' \<longrightarrow> due tm' = due tm)"
  proof
    assume old: "tm \<in> set (timers s)"
    note d = dedup_invD [OF assms(1) old k']
    from old k' none have "k' \<noteq> k" by blast
    then show ?thesis using d by auto
  next
    assume new: "tm = ?new"
    with k' have "k' = k" by simp
    then show ?thesis using new none by auto
  qed
qed

lemma timers_promoteTracked:
  "set (timers (fst (snd (snd (promoteTracked e t s))))) \<subseteq> set (timers s) \<and>
   (\<forall>tm \<in> set (timers s). handle tm = None \<longrightarrow>
      tm \<in> set (timers (fst (snd (snd (promoteTracked e t s))))))"
  by (auto simp: promoteTracked_def Let_def split_beta split: option.splits)

lemma timers_revoke_try:
  "set (timers (fst (snd (revoke_try e a b s)))) \<subseteq> set (timers s) \<and>
   (\<forall>tm \<in> set (timers s). handle tm = None \<longrightarrow>
      tm \<in> set (timers (fst (snd (revoke_try e a b s)))))"
proof (cases "map_of (mediaTracker s) (revokedId a b)")
  case None
  then show ?thesis
    by (simp add: revoke_try_def Let_def split_beta split: option.splits)
next
  case (Some t)
  have "timers (fst (snd (revoke_try e a b s))) =
      timers (fst (snd (snd (promoteTracked e t s))))"
    using Some by (simp add: revoke_try_def Let_def split_beta)
  then show ?thesis
    using timers_promoteTracked [of e t s] by simp
qed

lemma revoke_handler_state:
  "fst (revoke_handler e a b s) =
     (if now e - readyTimestamp s < STARTUP_GRACE_MS \<or> refId a \<in> processedRevokes s then s
      else fst (snd (revoke_try e a b (markProcessed e (refId a) s))))"
  by (simp add: revoke_handler_def split_beta split: option.splits prod.splits)

lemma dedup_inv_revoke_handler:
  assumes "dedup_inv s"
  shows "dedup_inv (fst (revoke_handler e a b s))"
proof (cases "now e - readyTimestamp s < STARTUP_GRACE_MS \<or> refId a \<in> processedRevokes s")
  case True
  then show ?thesis using assms by (simp add: revoke_handler_state)
next
  case False
  let ?s1 = "markProcessed e (refId a) s"
  from False have "dedup_inv ?s1"
    using dedup_inv_markProcessed [OF assms] by simp
  then have "dedup_inv (fst (snd (revoke_try e a b ?s1)))"
    by (rule dedup_inv_subset) (use timers_revoke_try [of e a b ?s1] in simp_all)
  with False show ?thesis by (simp add: revoke_handler_state)
qed

lemma dedup_inv_step:
  assumes "dedup_inv s"
  shows "dedup_inv (fst (step s ev))"
proof -
  let ?s = "advance (event_time ev) s"
  have a: "dedup_inv ?s" by (rule dedup_inv_advance [OF assms])
  show ?thesis
  proof (cases ev)
    case (Ready e)
    with a show ?thesis by (simp add: step_def)
  next
    case (ReadyResumed e)
    have "dedup_inv (fst (ready_resumed e ?s))"
      by (rule dedup_inv_subset [OF a]) (simp_all add: ready_resumed_def)
    with ReadyResumed show ?thesis by (simp add: step_def)
  next
    case (Message e m)
    obtain extra where "timers (fst (message_handler e m ?s)) = timers ?s @ extra"
      "list_all other_timer extra"
      using timers_message_handler by blast
    then have "dedup_inv (fst (message_handler e m ?s))"
      by (rule dedup_inv_append_other [OF a]) simp
    with Message show ?thesis by (simp add: step_def)
  next
    case (MessageCreate e m)
    obtain extra where "timers (fst (message_create_handler e m ?s)) = timers ?s @ extra"
      "list_all other_timer extra"
      using timers_message_create_handler by blast
    then have "dedup_inv (fst (message_create_handler e m ?s))"
      by (rule dedup_inv_append_other [OF a]) simp
    with MessageCreate show ?thesis by (simp add: step_def)
  next
    case (Revoke e r b)
    with dedup_inv_revoke_handler [OF a] show ?thesis by (simp add: step_def)
  qed
qed

lemma dedup_inv_run:
  assumes "dedup_inv s"
  shows "dedup_inv (run s evs)"
  using assms by (induction evs arbitrary: s) (simp_all add: dedup_inv_step)


lemma guard_held_mono:
  assumes "guard_held k T s"
    and "\<forall>tm \<in> set (timers s'). action tm = DedupExpire k \<longrightarrow> tm \<in> set (timers s)"
    and "\<forall>tm \<in> set (timers s). handle tm = None \<longrightarrow> tm \<in> set (timers s')"
    and "processedRevokes s \<subseteq> processedRevokes s'"
  shows "guard_held k T s'"
proof -
  let ?tm = "\<lparr>handle = None, due = T, action = DedupExpire k\<rparr>"
  from assms(1) have inP: "k \<in> processedRevokes s" and pending: "?tm \<in> set (timers s)"
    and only: "\<forall>tm \<in> set (timers s). action tm = DedupExpire k \<longrightarrow> due tm = T"
    by (auto simp: guard_held_def list_all_iff)
  from pending assms(3) have "?tm \<in> set (timers s')" by force
  moreover from inP assms(4) have "k \<in> processedRevokes s'" by blast
  moreover from only assms(2)
  have "\<forall>tm \<in> set (timers s'). action tm = DedupExpire k \<longrightarrow> due tm = T" by blast
  ultimately show ?thesis
    by (auto simp: guard_held_def list_all_iff)
qed

lemma guard_held_advance:
  assumes "guard_held k T s" and "t < T"
  shows "guard_held k T (advance t s)"
proof -
  let ?tm = "\<lparr>handle = None, due = T, action = DedupExpire k\<rparr>"
  from assms(1) have inP: "k \<in> processedRevokes s" and pending: "?tm \<in> set (timers s)"
    and only: "\<forall>tm \<in> set (timers s). action tm = DedupExpire k \<longrightarrow> due tm = T"
    by (auto simp: guard_held_def list_all_iff)
  have "DedupExpire k \<notin> action ` {tm \<in> set (timers s). due tm \<le> t}"
  proof
    assume "DedupExpire k \<in> action ` {tm \<in> set (timers s). due tm \<le> t}"
    then obtain tm where "tm \<in> set (timers s)" "due tm \<le> t" "action tm = DedupExpire k"
      by force
    with only assms(2) show False by auto
  qed
  with inP have "k \<in> processedRevokes (advance t s)"
    by (simp add: processedRevokes_advance)
  moreover have "?tm \<in> set (timers (advance t s))"
    using pending assms(2) by (simp add: timers_advance)
  moreover have "\<forall>tm \<in> set (timers (advance t s)). action tm = DedupExpire k \<longrightarrow> due tm = T"
    using only by (simp add: timers_advance)
  ultimately show ?thesis
    by (auto simp: guard_held_def list_all_iff)
qed

lemma guard_released:
  assumes "guard_held k T s" and "T \<le> t"
  shows "k \<notin> processedRevokes (advance t s)"
proof -
  let ?tm = "\<lparr>handle = None, due = T, action = DedupExpire k\<rparr>"
  from assms(1) have "?tm \<in> set (timers s)"
    by (simp add: guard_held_def)
  with assms(2) have "DedupExpire k \<in> action ` {tm \<in> set (timers s). due tm \<le> t}"
    by force
  then show ?thesis
    by (simp add: processedRevokes_advance)
qed

lemma guard_held_append_other:
  assumes "guard_held k T s" and "timers s' = timers s @ extra" and "list_all other_timer extra"
    and "processedRevokes s' = processedRevokes s"
  shows "guard_held k T s'"
proof (rule guard_held_mono [OF assms(1)])
  show "\<forall>tm \<in> set (timers s'). action tm = DedupExpire k \<longrightarrow> tm \<in> set (timers s)"
    using assms(2) assms(3) by (auto simp: list_all_iff other_timer_iff)
  show "\<forall>tm \<in> set (timers s). handle tm = None \<longrightarrow> tm \<in> set (timers s')"
    using assms(2) by simp
  show "processedRevokes s \<subseteq> processedRevokes s'"
    using assms(4) by simp
qed

lemma guard_held_revoke_handler:
  assumes "guard_held k T s"
  shows "guard_held k T (fst (revoke_handler e a b s))"
proof (cases "now e - readyTimestamp s < STARTUP_GRACE_MS \<or> refId a \<in> processedRevokes s")
  case True
  then show ?thesis using assms by (simp add: revoke_handler_state)
next
  case False
  let ?s1 = "markProcessed e (refId a) s"
  let ?s2 = "fst (snd (revoke_try e a b ?s1))"
  from assms have "k \<in> processedRevokes s" by (simp add: guard_held_def)
  with False have other: "refId a \<noteq> k" by auto
  have "guard_held k T ?s2"
  proof (rule guard_held_mono [OF assms])
    show "\<forall>tm \<in> set (timers ?s2). action tm = DedupExpire k \<longrightarrow> tm \<in> set (timers s)"
      using timers_revoke_try [of e a b ?s1] other by auto
    show "\<forall>tm \<in> set (timers s). handle tm = None \<longrightarrow> tm \<in> set (timers ?s2)"
      using timers_revoke_try [of e a b ?s1] by auto
    show "processedRevokes s \<subseteq> processedRevokes ?s2"
      by auto
  qed
  with False show ?thesis by (simp add: revoke_handler_state)
qed

lemma guard_held_step:
  assumes "guard_held k T s" and "event_time ev < T"
  shows "guard_held k T (fst (step s ev))"
proof -
  let ?s = "advance (event_time ev) s"
  have a: "guard_held k T ?s" by (rule guard_held_advance [OF assms])
  show ?thesis
  proof (cases ev)
    case (Ready e)
    with a show ?thesis by (simp add: step_def)
  next
    case (ReadyResumed e)
    have "guard_held k T (fst (ready_resumed e ?s))"
      by (rule guard_held_mono [OF a]) (simp_all add: ready_resumed_def)
    with ReadyResumed show ?thesis by (simp add: step_def)
  next
    case (Message e m)
    obtain extra where "timers (fst (message_handler e m ?s)) = timers ?s @ extra"
      "list_all other_timer extra"
      using timers_message_handler by blast
    then have "guard_held k T (fst (message_handler e m ?s))"
      by (rule guard_held_append_other [OF a]) simp
    with Message show ?thesis by (simp add: step_def)
  next
    case (MessageCreate e m)
    obtain extra where "timers (fst (message_create_handler e m ?s)) = timers ?s @ extra"
      "list_all other_timer extra"
      using timers_message_create_handler by blast
    then have "guard_held k T (fst (message_create_handler e m ?s))"
      by (rule guard_held_append_other [OF a]) simp
    with MessageCreate show ?thesis by (simp add: step_def)
  next
    case (Revoke e r b)
    with guard_held_revoke_handler [OF a] show ?thesis by (simp add: step_def)
  qed
qed

lemma guard_held_run:
  assumes "guard_held k T s" and "\<forall>ev \<in> set evs. event_time ev < T"
  shows "guard_held k T (run s evs)"
  using assms by (induction evs arbitrary: s) (simp_all add: guard_held_step)

lemma guard_held_after_admission:
  assumes "dedup_inv s" and "refId a \<notin> processedRevokes s"
    and "\<not> now e - readyTimestamp s < STARTUP_GRACE_MS"
  shows "guard_held (refId a) (now e + REVOKE_DEDUP_TTL_MS) (fst (revoke_handler e a b s))"
proof -
  let ?k = "refId a"
  let ?s1 = "markProcessed e ?k s"
  let ?s2 = "fst (snd (revoke_try e a b ?s1))"
  have none: "tm \<in> set (timers s) \<Longrightarrow> action tm \<noteq> DedupExpire ?k" for tm
    using dedup_invD(1) [OF assms(1)] assms(2) by blast
  have "guard_held ?k (now e + REVOKE_DEDUP_TTL_MS) ?s1"
    using none by (auto simp: guard_held_def list_all_iff)
  then have "guard_held ?k (now e + REVOKE_DEDUP_TTL_MS) ?s2"
    by (rule guard_held_mono) (use timers_revoke_try [of e a b ?s1] in auto)
  with assms(2) assms(3) show ?thesis by (simp add: revoke_handler_state)
qed

lemma admitted_not_silent:
  assumes "\<not> now e - readyTimestamp s < STARTUP_GRACE_MS" and "refId a \<notin> processedRevokes s"
  shows "snd (revoke_handler e a b s) \<noteq> [] \<and> refId a \<in> processedRevokes (fst (revoke_handler e a b s))"
proof -
  let ?t = "revoke_try e a b (markProcessed e (refId a) s)"
  have "snd (revoke_handler e a b s) \<noteq> []"
  proof (cases "fst ?t")
    case None
    from revoke_try_outputs [OF None] have "snd (snd ?t) \<noteq> []" by auto
    with None show ?thesis
      using revoke_handler_admitted [OF assms, of b] by simp
  next
    case (Some err)
    then show ?thesis
      using revoke_handler_admitted [OF assms, of b] by simp
  qed
  moreover have "refId a \<in> processedRevokes (fst (revoke_handler e a b s))"
    using assms by (simp add: revoke_handler_state)
  ultimately show ?thesis by blast
qed


text \<open>
  Claim C3. In any state the agent can reach, a revoke event that arrives after the
  startup grace period for an id that is not in the revoke guard is processed: it
  produces effects and its id enters the guard. As long as every later event arrives
  less than \<open>REVOKE_DEDUP_TTL_MS\<close> (60 s) after it, a further revoke event for the
  same id inside that window is dropped silently: it produces no effect at all and
  leaves the state as the due timers left it (nothing is notified, persisted or
  promoted). A revoke event for the same id that arrives once the window has passed
  finds the id gone from the guard and is processed again.
\<close>

theorem revoke_dedup_window:
  assumes "s = run init pre"
    and "\<not> now e0 - readyTimestamp s < STARTUP_GRACE_MS"
    and "refId a \<notin> processedRevokes (advance (now e0) s)"
    and "\<forall>ev \<in> set evs. event_time ev < now e0 + REVOKE_DEDUP_TTL_MS"
    and "s2 = run (fst (step s (Revoke e0 a b))) evs"
    and "refId a' = refId a"
  shows "snd (step s (Revoke e0 a b)) \<noteq> [] \<and>
         refId a \<in> processedRevokes (fst (step s (Revoke e0 a b))) \<and>
         (now e < now e0 + REVOKE_DEDUP_TTL_MS \<longrightarrow>
            step s2 (Revoke e a' b') = (advance (now e) s2, [])) \<and>
         (now e0 + REVOKE_DEDUP_TTL_MS \<le> now e \<and>
          \<not> now e - readyTimestamp s2 < STARTUP_GRACE_MS \<longrightarrow>
            refId a \<notin> processedRevokes (advance (now e) s2) \<and>
            snd (step s2 (Revoke e a' b')) \<noteq> [] \<and>
            refId a \<in> processedRevokes (fst (step s2 (Revoke e a' b'))))"
proof -
  let ?T = "now e0 + REVOKE_DEDUP_TTL_MS"
  let ?s0 = "advance (now e0) s"
  let ?s1 = "fst (step s (Revoke e0 a b))"
  have inv: "dedup_inv ?s0"
    unfolding assms(1) by (intro dedup_inv_advance dedup_inv_run dedup_inv_init)
  have grace: "\<not> now e0 - readyTimestamp ?s0 < STARTUP_GRACE_MS"
    using assms(2) by simp
  have first: "snd (step s (Revoke e0 a b)) \<noteq> [] \<and> refId a \<in> processedRevokes ?s1"
    using admitted_not_silent [OF grace assms(3), of b] by (simp add: step_def)
  have "guard_held (refId a) ?T ?s1"
    using guard_held_after_admission [OF inv assms(3) grace, of b] by (simp add: step_def)
  then have held: "guard_held (refId a) ?T s2"
    unfolding assms(5) using assms(4) by (rule guard_held_run)
  have inside: "step s2 (Revoke e a' b') = (advance (now e) s2, [])" if "now e < ?T"
  proof -
    from guard_held_advance [OF held that]
    have "refId a' \<in> processedRevokes (advance (now e) s2)"
      by (simp add: guard_held_def assms(6))
    then show ?thesis
      by (simp add: step_def revoke_handler_def)
  qed
  have outside: "refId a \<notin> processedRevokes (advance (now e) s2) \<and>
      snd (step s2 (Revoke e a' b')) \<noteq> [] \<and>
      refId a \<in> processedRevokes (fst (step s2 (Revoke e a' b')))"
    if late: "?T \<le> now e" and past: "\<not> now e - readyTimestamp s2 < STARTUP_GRACE_MS"
  proof -
    have gone: "refId a' \<notin> processedRevokes (advance (now e) s2)"
      using guard_released [OF held late] by (simp add: assms(6))
    have past': "\<not> now e - readyTimestamp (advance (now e) s2) < STARTUP_GRACE_MS"
      using past by simp
    from admitted_not_silent [OF past' gone, of b'] gone show ?thesis
      by (simp add: step_def assms(6))
  qed
  from first inside outside show ?thesis by blast
qed

theorem revoke_dedup_window_witness:
  "snd (step init (Revoke (env_at 1700000005000) after1 None)) \<noteq> [] \<and>
   step (run (fst (step init (Revoke (env_at 1700000005000) after1 None)))
          [Revoke (env_at 1700000006000) after1 None])
        (Revoke (env_at 1700000010000) after1 None) =
     (advance 1700000010000
        (run (fst (step init (Revoke (env_at 1700000005000) after1 None)))
          [Revoke (env_at 1700000006000) after1 None]), []) \<and>
   snd (step (run (fst (step init (Revoke (env_at 1700000005000) after1 None)))
          [Revoke (env_at 1700000006000) after1 None])
        (Revoke (env_at 1700000070000) after1 None)) \<noteq> []"
proof -
  let ?e0 = "env_at 1700000005000"
  let ?evs = "[Revoke (env_at 1700000006000) after1 None]"
  let ?s2 = "run (fst (step init (Revoke ?e0 after1 None))) ?evs"
  have start: "init = run init []" by simp
  have grace: "\<not> now ?e0 - readyTimestamp init < STARTUP_GRACE_MS"
    by (simp add: env_at_def init_def STARTUP_GRACE_MS_def)
  have fresh: "refId after1 \<notin> processedRevokes (advance (now ?e0) init)"
    by (simp add: processedRevokes_advance init_def)
  have window: "\<forall>ev \<in> set ?evs. event_time ev < now ?e0 + REVOKE_DEDUP_TTL_MS"
    by (simp add: env_at_def REVOKE_DEDUP_TTL_MS_def)
  have ready: "readyTimestamp ?s2 = 0"
    by (simp add: readyTimestamp_step init_def)
  note inst = revoke_dedup_window [OF start grace fresh window refl refl]
  have "snd (step init (Revoke ?e0 after1 None)) \<noteq> []"
    using inst [where e = "env_at 1700000010000" and b' = None] by blast
  moreover have "step ?s2 (Revoke (env_at 1700000010000) after1 None) =
      (advance 1700000010000 ?s2, [])"
    using inst [where e = "env_at 1700000010000" and b' = None]
    by (simp add: env_at_def REVOKE_DEDUP_TTL_MS_def)
  moreover have "snd (step ?s2 (Revoke (env_at 1700000070000) after1 None)) \<noteq> []"
  proof -
    have "now ?e0 + REVOKE_DEDUP_TTL_MS \<le> now (env_at 1700000070000)"
      by (simp add: env_at_def REVOKE_DEDUP_TTL_MS_def)
    moreover have "\<not> now (env_at 1700000070000) - readyTimestamp ?s2 < STARTUP_GRACE_MS"
      unfolding ready by (simp add: env_at_def STARTUP_GRACE_MS_def)
    ultimately show ?thesis
      using inst [where e = "env_at 1700000070000" and b' = None] by blast
  qed
  ultimately show ?thesis by blast
qed

end
